theory Spec2Isabelle
  imports Complex_Main
begin

section \<open>Arrays, errors and parameters\<close>

text \<open>
  The program is \<^verbatim>\<open>cpab/backend/numpy/transformer.py\<close>: the integration of a
  one-dimensional continuous piecewise-affine velocity field and its derivative.

  A one-dimensional numpy array is a list, a two-dimensional one a list of rows of equal
  length, and an elementwise numpy operation is a \<open>map\<close> over the list. Array entries are
  IEEE doubles in the source; here they are real numbers, so every operation is the exact
  one and no rounding, overflow, \<^verbatim>\<open>inf\<close> or \<^verbatim>\<open>nan\<close> exists in the model. The
  source silences the floating-point warnings (\<^verbatim>\<open>np.seterr\<close>) and selects with
  \<^verbatim>\<open>np.where\<close> between eagerly computed branches; the selection is an \<open>if\<close>
  here. The point array \<^verbatim>\<open>x\<close> handed to the entry points is one-dimensional.
  Exceptions are values of type \<open>error\<close>.
\<close>

datatype error = BaseException | ValueError | IndexError | ZeroDivisionError

text \<open>\<^verbatim>\<open>eps = np.finfo(np.float32).eps\<close>, the float32 machine epsilon.\<close>

definition eps :: real where
  "eps = 1 / 2 ^ 23"

record params =
  xmin :: real
  xmax :: real
  nc :: int
  B :: "real list list"
  nSteps1 :: int
  nSteps2 :: int
  precomputed :: bool
  A :: "(real \<times> real) list list"
  r :: "nat list"

text \<open>
  \<open>A params ! i ! j\<close> is the pair \<^verbatim>\<open>(A[i, j, 0], A[i, j, 1])\<close> of the source's
  tensor of shape \<^verbatim>\<open>(n_batch, cells, 2)\<close>.
\<close>

text \<open>\<^verbatim>\<open>np.clip(a, lo, hi)\<close> is \<^verbatim>\<open>minimum(maximum(a, lo), hi)\<close>.\<close>

definition clip :: "'a::linorder \<Rightarrow> 'a \<Rightarrow> 'a \<Rightarrow> 'a" where
  "clip a lo hi = min (max a lo) hi"

text \<open>\<^verbatim>\<open>xs[mask]\<close>: the entries of \<open>xs\<close> where the boolean mask holds.\<close>

definition mask_select :: "'a list \<Rightarrow> bool list \<Rightarrow> 'a list" where
  "mask_select xs msk = map fst (filter snd (zip xs msk))"

text \<open>
  \<^verbatim>\<open>xs[mask] = vs\<close>: the entries of \<open>xs\<close> where the mask holds are replaced, in
  order, by the entries of \<open>vs\<close>.
\<close>

fun mask_assign :: "'a list \<Rightarrow> bool list \<Rightarrow> 'a list \<Rightarrow> 'a list" where
  "mask_assign [] msk vs = []"
| "mask_assign (x # xs) [] vs = x # xs"
| "mask_assign (x # xs) (False # msk) vs = x # mask_assign xs msk vs"
| "mask_assign (x # xs) (True # msk) [] = x # xs"
| "mask_assign (x # xs) (True # msk) (v # vs) = v # mask_assign xs msk vs"

text \<open>A vectorised operation that raises as soon as one element does.\<close>

primrec sequence_err :: "(error + 'a) list \<Rightarrow> error + 'a list" where
  "sequence_err [] = Inr []"
| "sequence_err (m # ms) =
     (case m of Inl e \<Rightarrow> Inl e
      | Inr v \<Rightarrow> (case sequence_err ms of Inl e \<Rightarrow> Inl e | Inr vs \<Rightarrow> Inr (v # vs)))"

text \<open>Python and numpy indexing: a negative index counts from the end.\<close>

definition np_index :: "'a list \<Rightarrow> int \<Rightarrow> error + 'a" where
  "np_index xs i =
     (let n = int (length xs)
      in if - n \<le> i \<and> i < n then Inr (xs ! nat (if i < 0 then i + n else i))
         else Inl IndexError)"

section \<open>Batch effect and the affine field\<close>

text \<open>
  \<^verbatim>\<open>batch_effect\<close>: the point template is repeated once for every row of \<open>theta\<close>
  and flattened.
\<close>

definition batch_effect :: "real list \<Rightarrow> real list list \<Rightarrow> real list" where
  "batch_effect x theta = concat (replicate (length theta) x)"

definition dot :: "real list \<Rightarrow> real list \<Rightarrow> real" where
  "dot u v = sum_list (map2 (*) u v)"

text \<open>
  \<^verbatim>\<open>get_affine\<close>. With the cache flag set the cached pair is returned. Otherwise
  \<open>r\<close> repeats every batch index \<^verbatim>\<open>n_points / n_batch\<close> times (a division by zero
  for an empty \<open>theta\<close>), and \<^verbatim>\<open>B.dot(theta.T).T.reshape(n_batch, -1, 2)\<close> needs the
  rows of \<open>B\<close> to be as long as the rows of \<open>theta\<close> and their number to be even.
\<close>

definition get_affine ::
  "real list \<Rightarrow> real list list \<Rightarrow> params \<Rightarrow> error + ((real \<times> real) list list \<times> nat list)" where
  "get_affine x theta params =
     (if precomputed params then Inr (A params, r params)
      else
        let n_batch = length theta; n_points = length x
        in if n_batch = 0 then Inl ZeroDivisionError
           else
             let rs = concat (map (replicate (n_points div n_batch)) [0..<n_batch])
             in if \<exists>row \<in> set (B params). length row \<noteq> length (hd theta) then Inl ValueError
                else if odd (length (B params)) then Inl ValueError
                else Inr (map (\<lambda>th. map (\<lambda>j. (dot (B params ! (2 * j)) th,
                                                  dot (B params ! (2 * j + 1)) th))
                                          [0..<length (B params) div 2]) theta,
                          rs))"

definition precompute_affine :: "real list \<Rightarrow> real list list \<Rightarrow> params \<Rightarrow> error + params" where
  "precompute_affine x theta params =
     (case get_affine x theta (params\<lparr>precomputed := False\<rparr>) of
        Inl e \<Rightarrow> Inl e
      | Inr (Af, rs) \<Rightarrow> Inr (params\<lparr>precomputed := True, A := Af, r := rs\<rparr>))"

section \<open>Cell locator\<close>

definition right_boundary :: "int \<Rightarrow> params \<Rightarrow> real" where
  "right_boundary c params =
     xmin params + real_of_int (c + 1) * (xmax params - xmin params) / real_of_int (nc params) + eps"

definition left_boundary :: "int \<Rightarrow> params \<Rightarrow> real" where
  "left_boundary c params =
     xmin params + real_of_int c * (xmax params - xmin params) / real_of_int (nc params) - eps"

definition get_cell :: "real \<Rightarrow> params \<Rightarrow> int" where
  "get_cell x params =
     clip \<lfloor>(x - xmin params) / (xmax params - xmin params) * real_of_int (nc params)\<rfloor>
          0 (nc params - 1)"

text \<open>
  numpy broadcasts a one-element array against an array of any length. \<open>broadcast n xs\<close>
  is \<open>xs\<close> stretched to the length \<open>n\<close> of the array it is combined with.
\<close>

definition broadcast :: "nat \<Rightarrow> 'a list \<Rightarrow> 'a list" where
  "broadcast n xs = (if length xs = n then xs else replicate n (hd xs))"

text \<open>
  \<^verbatim>\<open>A[r, c, 0]\<close> and \<^verbatim>\<open>A[r, c, 1]\<close> with index arrays \<open>r\<close> and \<open>c\<close>: the pair of
  coefficients of every point, or an \<open>IndexError\<close>. The two index arrays are broadcast
  against each other: they have one length, or one of them has a single element.
\<close>

definition gather ::
  "(real \<times> real) list list \<Rightarrow> nat list \<Rightarrow> int list \<Rightarrow> error + (real \<times> real) list" where
  "gather Af rs cs =
     (if length rs \<noteq> length cs \<and> length rs \<noteq> 1 \<and> length cs \<noteq> 1 then Inl IndexError
      else
        let n = (if length rs = 1 then length cs else length rs)
        in sequence_err
             (map (\<lambda>(ri, ci). case np_index Af (int ri) of Inl e \<Rightarrow> Inl e
                               | Inr row \<Rightarrow> np_index row ci)
                  (zip (broadcast n rs) (broadcast n cs))))"

text \<open>The coefficients \<open>(a, b)\<close> of the cell of every point of \<open>x\<close>.\<close>

definition coefficients ::
  "real list \<Rightarrow> real list list \<Rightarrow> params \<Rightarrow> error + (real \<times> real) list" where
  "coefficients x theta params =
     (case get_affine x theta params of
        Inl e \<Rightarrow> Inl e
      | Inr (Af, rs) \<Rightarrow> gather Af rs (map (\<lambda>xi. get_cell xi params) x))"

definition get_velocity :: "real list \<Rightarrow> real list list \<Rightarrow> params \<Rightarrow> error + real list" where
  "get_velocity x theta params =
     (case coefficients x theta params of
        Inl e \<Rightarrow> Inl e
      | Inr ab \<Rightarrow> Inr (map2 (\<lambda>(a, b) xi. a * xi + b) ab (broadcast (length ab) x)))"

text \<open>The elementwise body of \<^verbatim>\<open>get_psi\<close>.\<close>

definition psi_where :: "real \<Rightarrow> real \<Rightarrow> real \<Rightarrow> real \<Rightarrow> real" where
  "psi_where a b x t =
     (let cond = (a = 0);
          x1 = x + t * b;
          x2 = exp (t * a) * (x + b / a) - b / a
      in if cond then x1 else x2)"

definition get_psi ::
  "real list \<Rightarrow> real list \<Rightarrow> real list list \<Rightarrow> params \<Rightarrow> error + real list" where
  "get_psi x t theta params =
     (case coefficients x theta params of
        Inl e \<Rightarrow> Inl e
      | Inr ab \<Rightarrow>
          Inr (map2 (\<lambda>(a, b) (xi, ti). psi_where a b xi ti) ab
                 (zip (broadcast (length ab) x) (broadcast (length ab) t))))"

text \<open>The elementwise body of \<^verbatim>\<open>get_hit_time\<close>, after the boundary \<open>xc\<close> is chosen.\<close>

definition hit_time_where :: "real \<Rightarrow> real \<Rightarrow> real \<Rightarrow> real \<Rightarrow> real" where
  "hit_time_where a b x xc =
     (let cond = (a = 0);
          x1 = (xc - x) / b;
          x2 = ln ((xc + b / a) / (x + b / a)) / a
      in if cond then x1 else x2)"

definition target_boundary :: "real \<Rightarrow> int \<Rightarrow> params \<Rightarrow> real" where
  "target_boundary v c params =
     (if v \<ge> 0 then right_boundary c params else left_boundary c params)"

definition get_hit_time :: "real list \<Rightarrow> real list list \<Rightarrow> params \<Rightarrow> error + real list" where
  "get_hit_time x theta params =
     (case get_affine x theta params of
        Inl e \<Rightarrow> Inl e
      | Inr (Af, rs) \<Rightarrow>
         (let c = map (\<lambda>xi. get_cell xi params) x
          in case get_velocity x theta params of
               Inl e \<Rightarrow> Inl e
             | Inr v \<Rightarrow>
                (let xc = map2 (\<lambda>vi ci. target_boundary vi ci params) v
                                (broadcast (length v) c)
                 in case gather Af rs c of
                      Inl e \<Rightarrow> Inl e
                    | Inr ab \<Rightarrow>
                        Inr (map2 (\<lambda>(a, b) (xi, xci). hit_time_where a b xi xci)
                                  ab (zip (broadcast (length ab) x) xc)))))"

section \<open>Closed-form integration\<close>

text \<open>
  The variables of the cell-hopping loop. \<open>ls_params\<close> is the local copy of the
  parameter object (its field \<open>r\<close> is re-sliced in the loop), \<open>ls_out\<close> is the
  output array (\<^verbatim>\<open>phi\<close> in \<^verbatim>\<open>integrate_closed_form\<close>, \<^verbatim>\<open>result\<close> in
  \<^verbatim>\<open>integrate_closed_form_trace\<close>).
\<close>

record 'a loop_state =
  ls_params :: params
  ls_out :: "'a list"
  ls_done :: "bool list"
  ls_x :: "real list"
  ls_t :: "real list"
  ls_c :: "int list"
  ls_cont :: int

datatype 'a loop_step = Finished "'a list" | Continue "'a loop_state"

text \<open>The validity test of one point: \<^verbatim>\<open>cond1\<close>, \<^verbatim>\<open>cond2\<close> or \<^verbatim>\<open>cond3\<close>.\<close>

definition valid_test :: "params \<Rightarrow> int \<Rightarrow> real \<Rightarrow> real \<Rightarrow> bool" where
  "valid_test params c v psi =
     (let left = left_boundary c params;
          right = right_boundary c params;
          cond1 = (left \<le> psi \<and> psi \<le> right);
          cond2 = (v \<ge> 0 \<and> c = nc params - 1);
          cond3 = (v \<le> 0 \<and> c = 0)
      in cond1 \<or> cond2 \<or> cond3)"

text \<open>
  One pass through the body of \<^verbatim>\<open>while True\<close>, up to and including
  \<^verbatim>\<open>cont += 1\<close>. The two loops of the source are the same text except for what they
  store for a point: \<open>store psi t c\<close> is \<^verbatim>\<open>psi\<close> in \<^verbatim>\<open>integrate_closed_form\<close>
  and \<^verbatim>\<open>(psi, t, c)\<close> in \<^verbatim>\<open>integrate_closed_form_trace\<close>.
\<close>

definition loop_body ::
  "(real \<Rightarrow> real \<Rightarrow> int \<Rightarrow> 'a) \<Rightarrow> real list list \<Rightarrow> 'a loop_state \<Rightarrow> error + 'a loop_step" where
  "loop_body store theta s =
     (let params = ls_params s; x = ls_x s; t = ls_t s; c = ls_c s;
          left = map (\<lambda>ci. left_boundary ci params) c;
          right = map (\<lambda>ci. right_boundary ci params) c
      in case get_velocity x theta params of
           Inl e \<Rightarrow> Inl e
         | Inr v \<Rightarrow>
            (case get_psi x t theta params of
               Inl e \<Rightarrow> Inl e
             | Inr psi \<Rightarrow>
                (let valid = map (\<lambda>(ci, vi, psii). valid_test params ci vi psii)
                                 (zip c (zip v psi));
                     active = map Not (ls_done s);
                     out' = mask_assign (ls_out s) active
                              (map (\<lambda>(psii, ti, ci). store psii ti ci) (zip psi (zip t c)));
                     done' = mask_assign (ls_done s) active valid
                 in if list_all id valid then Inr (Finished out')
                    else
                      (let invalid = map Not valid;
                           x1 = mask_select x invalid;
                           t1 = mask_select t invalid;
                           params1 = params\<lparr>r := mask_select (r params) invalid\<rparr>
                       in case get_hit_time x1 theta params1 of
                            Inl e \<Rightarrow> Inl e
                          | Inr thit \<Rightarrow>
                              Inr (Continue
                                \<lparr>ls_params = params1,
                                 ls_out = out',
                                 ls_done = done',
                                 ls_x = mask_select
                                          (map (\<lambda>(psii, l, u). clip psii l u)
                                               (zip psi (zip left right)))
                                          invalid,
                                 ls_t = map2 (-) t1 thit,
                                 ls_c = mask_select
                                          (map2 (\<lambda>vi ci. if vi \<ge> 0 then ci + 1 else ci - 1) v c)
                                          invalid,
                                 ls_cont = ls_cont s + 1\<rparr>)))))"

lemma loop_body_cont:
  assumes "loop_body store theta s = Inr (Continue s')"
  shows "ls_cont s' = ls_cont s + 1 \<and> nc (ls_params s') = nc (ls_params s)"
  using assms
  by (auto simp: loop_body_def Let_def split: sum.splits if_splits)

text \<open>
  The loop. It returns the outcome together with the value of \<^verbatim>\<open>cont\<close> at the exit:
  \<open>Inr\<close> of the output array at \<^verbatim>\<open>return\<close>, \<open>Inl\<close> of the exception otherwise.
\<close>

function cell_loop ::
  "(real \<Rightarrow> real \<Rightarrow> int \<Rightarrow> 'a) \<Rightarrow> real list list \<Rightarrow> 'a loop_state \<Rightarrow> (error + 'a list) \<times> int" where
  "cell_loop store theta s =
     (case loop_body store theta s of
        Inl e \<Rightarrow> (Inl e, ls_cont s)
      | Inr (Finished out) \<Rightarrow> (Inr out, ls_cont s)
      | Inr (Continue s') \<Rightarrow>
          if ls_cont s' > nc (ls_params s') then (Inl BaseException, ls_cont s')
          else cell_loop store theta s')"
  by pat_completeness auto
termination
proof (relation "measure (\<lambda>(store, theta, s). nat (nc (ls_params s) + 1 - ls_cont s))")
  show "wf (measure (\<lambda>(store, theta, s). nat (nc (ls_params s) + 1 - ls_cont s)))"
    by simp
next
  fix store :: "real \<Rightarrow> real \<Rightarrow> int \<Rightarrow> 'a" and theta s step s'
  assume "loop_body store theta s = Inr step" and "step = Continue s'"
    and small: "\<not> nc (ls_params s') < ls_cont s'"
  then have "ls_cont s' = ls_cont s + 1 \<and> nc (ls_params s') = nc (ls_params s)"
    using loop_body_cont by blast
  with small
  show "((store, theta, s'), (store, theta, s))
          \<in> measure (\<lambda>(store, theta, s). nat (nc (ls_params s) + 1 - ls_cont s))"
    by simp
qed

declare cell_loop.simps [simp del]

text \<open>\<^verbatim>\<open>xs.reshape((n_batch, -1))\<close> for a flat array.\<close>

definition reshape_rows :: "nat \<Rightarrow> 'a list \<Rightarrow> 'a list list" where
  "reshape_rows n_batch xs =
     (let m = length xs div n_batch
      in map (\<lambda>i. take m (drop (i * m) xs)) [0..<n_batch])"

definition initial_state :: "'a \<Rightarrow> real list \<Rightarrow> params \<Rightarrow> 'a loop_state" where
  "initial_state filler x params =
     \<lparr>ls_params = params,
      ls_out = map (\<lambda>_. filler) x,
      ls_done = map (\<lambda>_. False) x,
      ls_x = x,
      ls_t = map (\<lambda>_. 1) x,
      ls_c = map (\<lambda>xi. get_cell xi params) x,
      ls_cont = 0\<rparr>"

text \<open>
  \<^verbatim>\<open>np.empty\<close> leaves the output array unspecified; the model fills it with zeros
  (the first pass of the loop overwrites every entry).
\<close>

definition integrate_closed_form ::
  "real list \<Rightarrow> real list list \<Rightarrow> params \<Rightarrow> error + real list list" where
  "integrate_closed_form x theta params =
     (let xb = batch_effect x theta
      in case precompute_affine xb theta params of
           Inl e \<Rightarrow> Inl e
         | Inr params' \<Rightarrow>
            (let n_batch = length theta
             in case fst (cell_loop (\<lambda>psi t c. psi) theta (initial_state 0 xb params')) of
                  Inl e \<Rightarrow> Inl e
                | Inr phi \<Rightarrow> Inr (reshape_rows n_batch phi)))"

definition integrate_closed_form_trace ::
  "real list \<Rightarrow> real list list \<Rightarrow> params \<Rightarrow> error + (real \<times> real \<times> int) list" where
  "integrate_closed_form_trace x theta params =
     (let xb = batch_effect x theta
      in case precompute_affine xb theta params of
           Inl e \<Rightarrow> Inl e
         | Inr params' \<Rightarrow>
             fst (cell_loop (\<lambda>psi t c. (psi, t, c)) theta (initial_state (0, 0, 0) xb params')))"


section \<open>Numeric integration\<close>

text \<open>\<^verbatim>\<open>for j in range(n)\<close> over a body that may raise.\<close>

fun for_range :: "nat \<Rightarrow> ('a \<Rightarrow> error + 'a) \<Rightarrow> 'a \<Rightarrow> error + 'a" where
  "for_range 0 body y = Inr y"
| "for_range (Suc n) body y =
     (case body y of Inl e \<Rightarrow> Inl e | Inr y' \<Rightarrow> for_range n body y')"

text \<open>One pass through the loop of \<^verbatim>\<open>get_phi_numeric\<close>: a midpoint sub-step.\<close>

definition midpoint_step ::
  "real \<Rightarrow> real list list \<Rightarrow> params \<Rightarrow> real list \<Rightarrow> error + real list" where
  "midpoint_step deltaT theta params yn =
     (case get_velocity yn theta params of
        Inl e \<Rightarrow> Inl e
      | Inr v \<Rightarrow>
         (let midpoint = map2 (\<lambda>yi vi. yi + deltaT / 2 * vi) yn v
          in case get_velocity midpoint theta params of
               Inl e \<Rightarrow> Inl e
             | Inr vm \<Rightarrow> Inr (map2 (\<lambda>yi vi. yi + deltaT * vi) yn vm)))"

text \<open>
  \<^verbatim>\<open>get_phi_numeric\<close>; \<open>t\<close> is a Python float, and \<^verbatim>\<open>t / nSteps2\<close> raises for
  \<^verbatim>\<open>nSteps2 = 0\<close>.
\<close>

definition get_phi_numeric ::
  "real list \<Rightarrow> real \<Rightarrow> real list list \<Rightarrow> params \<Rightarrow> error + real list" where
  "get_phi_numeric x t theta params =
     (if nSteps2 params = 0 then Inl ZeroDivisionError
      else
        let deltaT = t / real_of_int (nSteps2 params)
        in for_range (nat (nSteps2 params)) (midpoint_step deltaT theta params) x)"

text \<open>
  One pass through the loop of \<^verbatim>\<open>integrate_numeric\<close>, on the pair of \<^verbatim>\<open>xPrev\<close>
  and \<^verbatim>\<open>c\<close>.
\<close>

definition numeric_step ::
  "real \<Rightarrow> real list list \<Rightarrow> params \<Rightarrow> real list \<times> int list \<Rightarrow> error + (real list \<times> int list)"
  where
  "numeric_step deltaT theta params state =
     (case state of
        (xPrev, c) \<Rightarrow>
          (case get_psi xPrev (map (\<lambda>_. deltaT) xPrev) theta params of
             Inl e \<Rightarrow> Inl e
           | Inr xTemp \<Rightarrow>
              (let cTemp = map (\<lambda>xi. get_cell xi params) xTemp
               in case get_phi_numeric xPrev deltaT theta params of
                    Inl e \<Rightarrow> Inl e
                  | Inr xNum \<Rightarrow>
                     (let xNext = map (\<lambda>((ci, cTi), (xTi, xNi)). if ci = cTi then xTi else xNi)
                                      (zip (zip c cTemp) (zip xTemp xNum))
                      in Inr (xNext, map (\<lambda>xi. get_cell xi params) xNext)))))"

definition integrate_numeric ::
  "real list \<Rightarrow> real list list \<Rightarrow> params \<Rightarrow> error + real list list" where
  "integrate_numeric x theta params =
     (let xb = batch_effect x theta; n_batch = length theta
      in case precompute_affine xb theta params of
           Inl e \<Rightarrow> Inl e
         | Inr params' \<Rightarrow>
             if nSteps1 params' = 0 then Inl ZeroDivisionError
             else
               (let deltaT = 1 / real_of_int (nSteps1 params');
                    c = map (\<lambda>xi. get_cell xi params') xb
                in case for_range (nat (nSteps1 params')) (numeric_step deltaT theta params')
                          (xb, c) of
                     Inl e \<Rightarrow> Inl e
                   | Inr (xPrev, c') \<Rightarrow> Inr (reshape_rows n_batch xPrev)))"

section \<open>Closed-form derivative\<close>


















lemma cell_loop_Inl:
  "loop_body store theta s = Inl e \<Longrightarrow> cell_loop store theta s = (Inl e, ls_cont s)"
  by (subst cell_loop.simps) simp

lemma cell_loop_Finished:
  "loop_body store theta s = Inr (Finished out) \<Longrightarrow>
   cell_loop store theta s = (Inr out, ls_cont s)"
  by (subst cell_loop.simps) simp

lemma cell_loop_Continue:
  "loop_body store theta s = Inr (Continue s') \<Longrightarrow>
   cell_loop store theta s =
     (if ls_cont s' > nc (ls_params s') then (Inl BaseException, ls_cont s')
      else cell_loop store theta s')"
  by (subst cell_loop.simps) simp

section \<open>Cell and boundary agreement\<close>

lemma left_boundary_alt:
  "left_boundary c params
     = xmin params + real_of_int c * (xmax params - xmin params) / real_of_int (nc params) - eps"
  by (simp add: left_boundary_def)

lemma right_boundary_alt:
  "right_boundary c params
     = xmin params + real_of_int (c + 1) * (xmax params - xmin params) / real_of_int (nc params)
       + eps"
  by (simp add: right_boundary_def)

lemma eps_pos: "0 < eps"
  by (simp add: eps_def)

text \<open>
  Over the real numbers the cell of a position of the domain contains the position
  between its boundaries; the widening by \<open>eps\<close> is not needed for that. The source
  evaluates the quotient of \<^verbatim>\<open>get_cell\<close> and the sums of the boundaries in doubles, and
  there the rounding of each operation decides the comparison: this lemma is a fact of
  the exact formulas only.
\<close>

lemma get_cell_agrees:
  assumes "xmin params < xmax params" and "0 < nc params"
    and "xmin params \<le> x" and "x \<le> xmax params"
  shows "left_boundary (get_cell x params) params \<le> x
       \<and> x \<le> right_boundary (get_cell x params) params"
proof -
  define w where "w = xmax params - xmin params"
  define n where "n = real_of_int (nc params)"
  define u where "u = (x - xmin params) / w * n"
  define k where "k = \<lfloor>u\<rfloor>"
  have w: "0 < w" and n: "0 < n"
    using assms by (simp_all add: w_def n_def)
  have x: "x = xmin params + u * w / n"
    using w n by (simp add: u_def)
  have u0: "0 \<le> u"
    using assms w n by (simp add: u_def)
  have un: "u \<le> n"
  proof -
    have "(x - xmin params) / w \<le> 1"
      using assms w by (simp add: w_def)
    then have "(x - xmin params) / w * n \<le> 1 * n"
      using n by (intro mult_right_mono) simp_all
    then show ?thesis by (simp add: u_def)
  qed
  have k0: "0 \<le> k"
    using u0 by (simp add: k_def)
  have kn: "k \<le> nc params"
    using un by (simp add: k_def n_def floor_le_iff)
  have c: "get_cell x params = min k (nc params - 1)"
  proof -
    have "get_cell x params = clip k 0 (nc params - 1)"
      unfolding get_cell_def k_def u_def w_def n_def ..
    with k0 show ?thesis by (simp add: clip_def)
  qed
  have ku: "real_of_int k \<le> u" and uk: "u < real_of_int k + 1"
    by (simp_all add: k_def)
  have mono: "p * w / n \<le> q * w / n" if "p \<le> q" for p q
    using that w n by (simp add: divide_right_mono mult_right_mono)
  have lb: "left_boundary c params = xmin params + real_of_int c * w / n - eps" for c
    by (simp add: left_boundary_def w_def n_def)
  have rb: "right_boundary c params = xmin params + real_of_int (c + 1) * w / n + eps" for c
    by (simp add: right_boundary_def w_def n_def)
  show ?thesis
  proof (cases "k \<le> nc params - 1")
    case True
    then have ck: "get_cell x params = k"
      using c by simp
    have "real_of_int k * w / n \<le> u * w / n"
      using ku by (rule mono)
    moreover have "u * w / n \<le> real_of_int (k + 1) * w / n"
      using uk by (intro mono) simp
    ultimately show ?thesis
      using eps_pos x unfolding ck lb rb by linarith
  next
    case False
    then have kk: "k = nc params"
      using kn by simp
    then have ck: "get_cell x params = nc params - 1"
      using c by simp
    have "real_of_int (nc params - 1) * w / n \<le> u * w / n"
      using ku kk by (intro mono) simp
    moreover have "u * w / n \<le> real_of_int (nc params - 1 + 1) * w / n"
      using un by (intro mono) (simp add: n_def)
    ultimately show ?thesis
      using eps_pos x unfolding ck lb rb by linarith
  qed
qed

text \<open>
  The parameters of the concrete scenario of the specification: the domain \<open>[0, 1]\<close> with
  two cells and a basis whose rows give \<open>a = 0\<close>, \<open>b = theta\<close> in either cell.
\<close>

definition scenario_params :: params where
  "scenario_params =
     \<lparr>xmin = 0, xmax = 1, nc = 2, B = [[0], [1], [0], [1]], nSteps1 = 1, nSteps2 = 1,
      precomputed = False, A = [], r = []\<rparr>"

section \<open>The concrete scenario\<close>

lemma scenario_loop:
  assumes "xmin params = 0" "xmax params = 1" "nc params = 2"
    and "precomputed params" "A params = [[(0, 1), (0, 1)]]" "r params = [0]"
  shows "cell_loop store theta (initial_state filler [1 / 2] params)
       = (Inr [store (3 / 2) 1 1], 0)"
proof -
  have c: "get_cell (1 / 2) params = 1"
    using assms by (simp add: get_cell_def clip_def)
  have co: "coefficients [1 / 2] theta params = Inr [(0, 1)]"
    using assms c
    by (simp add: coefficients_def get_affine_def gather_def broadcast_def np_index_def)
  have v: "get_velocity [1 / 2] theta params = Inr [1]"
    by (simp add: get_velocity_def broadcast_def co)
  have p: "get_psi [1 / 2] [1] theta params = Inr [3 / 2]"
    by (simp add: get_psi_def broadcast_def co psi_where_def)
  have val: "valid_test params 1 1 (3 / 2)"
    using assms by (simp add: valid_test_def)
  have "loop_body store theta (initial_state filler [1 / 2] params)
      = Inr (Finished [store (3 / 2) 1 1])"
    by (simp add: loop_body_def initial_state_def c v p val)
  then have "cell_loop store theta (initial_state filler [1 / 2] params)
           = (Inr [store (3 / 2) 1 1], ls_cont (initial_state filler [1 / 2] params))"
    by (rule cell_loop_Finished)
  then show ?thesis
    by (simp add: initial_state_def)
qed

lemma scenario_affine:
  "get_affine [1 / 2] [[1]] (scenario_params\<lparr>precomputed := False\<rparr>)
     = Inr ([[(0, 1), (0, 1)]], [0])"
  by (simp add: get_affine_def scenario_params_def dot_def)

text \<open>
  Claim C2, as amended. In the scenario \<open>xmin = 0\<close>, \<open>xmax = 1\<close>, \<open>nc = 2\<close>, one batch,
  the single point \<open>x = 1/2\<close> and a field that resolves to \<open>a = 0\<close>, \<open>b = 1\<close> in both
  cells, \<open>integrate_closed_form\<close> returns \<open>3/2\<close>, and the trace is the single triple
  \<open>(3/2, 1, 1)\<close>: the point lies in the last cell and moves to the right, so the first
  pass of the loop finalises it with the whole unit of time still to spend, and the loop
  exits with \<open>cont = 0\<close>, before any hit time is computed.
\<close>

theorem scenario_constant_field:
  assumes "xmin params = 0" and "xmax params = 1" and "nc params = 2"
    and "length theta = 1"
    and "get_affine [1 / 2] theta (params\<lparr>precomputed := False\<rparr>)
         = Inr ([[(0, 1), (0, 1)]], [0])"
  shows "integrate_closed_form [1 / 2] theta params = Inr [[3 / 2]]
       \<and> integrate_closed_form_trace [1 / 2] theta params = Inr [(3 / 2, 1, 1)]
       \<and> snd (cell_loop (\<lambda>psi t c. (psi, t, c)) theta
               (initial_state (0, 0, 0) [1 / 2]
                  (params\<lparr>precomputed := True, A := [[(0, 1), (0, 1)]], r := [0]\<rparr>))) = 0"
proof -
  have b: "batch_effect [1 / 2] theta = [1 / 2]"
    using assms(4) by (simp add: batch_effect_def)
  have pre: "precompute_affine [1 / 2] theta params
           = Inr (params\<lparr>precomputed := True, A := [[(0, 1), (0, 1)]], r := [0]\<rparr>)"
    using assms(5) by (simp add: precompute_affine_def)
  note loop =
    scenario_loop [of "params\<lparr>precomputed := True, A := [[(0, 1), (0, 1)]], r := [0]\<rparr>"]
  show ?thesis
    using assms(1-4)
    by (simp add: integrate_closed_form_def integrate_closed_form_trace_def b pre loop
        reshape_rows_def)
qed

theorem scenario_constant_field_witness:
  "integrate_closed_form [1 / 2] [[1]] scenario_params = Inr [[3 / 2]]
   \<and> integrate_closed_form_trace [1 / 2] [[1]] scenario_params = Inr [(3 / 2, 1, 1)]"
  using scenario_constant_field [of scenario_params "[[1]]"] scenario_affine
  by (simp add: scenario_params_def)

text \<open>
  Claim C2 as stated fails: the trace of the scenario does not hold the time that one hit
  time \<open>right_boundary 1 - 1/2\<close> would leave, and the loop exits with \<open>cont = 0\<close>, so
  no hit-time event took place.
\<close>

theorem scenario_one_hit_time_refuted:
  "\<not> (\<exists>psi c. integrate_closed_form_trace [1 / 2] [[1]] scenario_params
                   = Inr [(psi, 1 - (right_boundary 1 scenario_params - 1 / 2), c)])
   \<and> snd (cell_loop (\<lambda>psi t c. (psi, t, c)) [[1]]
           (initial_state (0, 0, 0) [1 / 2]
              (scenario_params\<lparr>precomputed := True, A := [[(0, 1), (0, 1)]], r := [0]\<rparr>))) = 0"
proof -
  have pre: "precompute_affine [1 / 2] [[1]] scenario_params
           = Inr (scenario_params\<lparr>precomputed := True, A := [[(0, 1), (0, 1)]], r := [0]\<rparr>)"
    using scenario_affine by (simp add: precompute_affine_def)
  have loop: "cell_loop (\<lambda>psi t c. (psi, t, c)) [[1]]
          (initial_state (0, 0, 0) [1 / 2]
             (scenario_params\<lparr>precomputed := True, A := [[(0, 1), (0, 1)]], r := [0]\<rparr>))
        = (Inr [(3 / 2, 1, 1)], 0)"
    by (rule scenario_loop) (simp_all add: scenario_params_def)
  then have "integrate_closed_form_trace [1 / 2] [[1]] scenario_params = Inr [(3 / 2, 1, 1)]"
    by (simp add: integrate_closed_form_trace_def batch_effect_def pre)
  moreover have "right_boundary 1 scenario_params - 1 / 2 \<noteq> 0"
    by (simp add: right_boundary_def scenario_params_def eps_def)
  ultimately show ?thesis
    using loop by simp
qed


section \<open>The bound of the cell-hopping loop\<close>

lemma sequence_err_Inl:
  "sequence_err ms = Inl e \<Longrightarrow> Inl e \<in> set ms"
  by (induction ms) (auto split: sum.splits)

lemma np_index_Inl: "np_index xs i = Inl e \<Longrightarrow> e = IndexError"
  by (auto simp: np_index_def Let_def split: if_splits)

lemma gather_Inl: "gather Af rs cs = Inl e \<Longrightarrow> e = IndexError"
  by (auto simp: gather_def Let_def split: if_splits sum.splits
      dest!: sequence_err_Inl np_index_Inl np_index_Inl [OF sym])

lemma get_affine_Inl:
  "get_affine x theta params = Inl e \<Longrightarrow> e = ZeroDivisionError \<or> e = ValueError"
  by (auto simp: get_affine_def Let_def split: if_splits)

lemma coefficients_Inl: "coefficients x theta params = Inl e \<Longrightarrow> e \<noteq> BaseException"
  by (auto simp: coefficients_def split: sum.splits dest: get_affine_Inl gather_Inl)

lemma get_velocity_Inl: "get_velocity x theta params = Inl e \<Longrightarrow> e \<noteq> BaseException"
  by (auto simp: get_velocity_def split: sum.splits dest: coefficients_Inl)

lemma get_psi_Inl: "get_psi x t theta params = Inl e \<Longrightarrow> e \<noteq> BaseException"
  by (auto simp: get_psi_def split: sum.splits dest: coefficients_Inl)

lemma get_hit_time_Inl: "get_hit_time x theta params = Inl e \<Longrightarrow> e \<noteq> BaseException"
  by (auto simp: get_hit_time_def Let_def split: sum.splits
      dest: get_affine_Inl gather_Inl get_velocity_Inl)

lemma loop_body_Inl: "loop_body store theta s = Inl e \<Longrightarrow> e \<noteq> BaseException"
  by (auto simp: loop_body_def Let_def split: sum.splits if_splits
      dest: get_velocity_Inl get_psi_Inl get_hit_time_Inl)

lemma cell_loop_cont:
  assumes "0 \<le> ls_cont s" and "ls_cont s \<le> max 0 (nc (ls_params s))"
  shows "ls_cont s \<le> snd (cell_loop store theta s)
       \<and> snd (cell_loop store theta s) \<le> max 0 (nc (ls_params s)) + 1
       \<and> (fst (cell_loop store theta s) = Inl BaseException
            \<longleftrightarrow> snd (cell_loop store theta s) = max 0 (nc (ls_params s)) + 1)"
  using assms
proof (induction store theta s rule: cell_loop.induct)
  case (1 store theta s)
  show ?case
  proof (cases "loop_body store theta s")
    case (Inl e)
    then have "cell_loop store theta s = (Inl e, ls_cont s)"
      by (rule cell_loop_Inl)
    moreover have "e \<noteq> BaseException"
      using Inl by (rule loop_body_Inl)
    ultimately show ?thesis
      using "1.prems" by simp
  next
    case (Inr step)
    show ?thesis
    proof (cases step)
      case (Finished out)
      then have "cell_loop store theta s = (Inr out, ls_cont s)"
        using Inr by (simp add: cell_loop_Finished)
      then show ?thesis
        using "1.prems" by simp
    next
      case (Continue s')
      then have body: "loop_body store theta s = Inr (Continue s')"
        using Inr by simp
      then have c: "ls_cont s' = ls_cont s + 1" and n: "nc (ls_params s') = nc (ls_params s)"
        using loop_body_cont by blast+
      show ?thesis
      proof (cases "ls_cont s' > nc (ls_params s')")
        case True
        then have "cell_loop store theta s = (Inl BaseException, ls_cont s')"
          using body by (simp add: cell_loop_Continue)
        then show ?thesis
          using True c n "1.prems" by simp
      next
        case False
        then have eq: "cell_loop store theta s = cell_loop store theta s'"
          using body by (simp add: cell_loop_Continue)
        have "ls_cont s' \<le> snd (cell_loop store theta s')
            \<and> snd (cell_loop store theta s') \<le> max 0 (nc (ls_params s')) + 1
            \<and> (fst (cell_loop store theta s') = Inl BaseException
                 \<longleftrightarrow> snd (cell_loop store theta s') = max 0 (nc (ls_params s')) + 1)"
          using "1.IH" [OF Inr Continue] False c n "1.prems" by simp
        then show ?thesis
          unfolding eq using c n by simp
      qed
    qed
  qed
qed

text \<open>
  A field that no continuous basis produces: velocity \<open>1\<close> in the left cell and \<open>-1\<close> in
  the right cell of \<open>[0, 1]\<close>. A point started at \<open>1/4\<close> is sent back and forth across
  the inner boundary.
\<close>

definition pingpong_params :: params where
  "pingpong_params =
     \<lparr>xmin = 0, xmax = 1, nc = 2, B = [[0], [1], [0], [- 1]], nSteps1 = 1, nSteps2 = 1,
      precomputed = False, A = [], r = []\<rparr>"

definition pingpong_field :: params where
  "pingpong_field = pingpong_params\<lparr>precomputed := True, A := [[(0, 1), (0, - 1)]], r := [0]\<rparr>"

lemmas body_unfold =
  loop_body_def get_velocity_def get_psi_def get_hit_time_def coefficients_def
  get_affine_def gather_def broadcast_def np_index_def get_cell_def clip_def psi_where_def
  hit_time_where_def
  target_boundary_def valid_test_def left_boundary_def right_boundary_def mask_select_def Let_def

lemma pingpong_precompute:
  "precompute_affine (batch_effect [1 / 4] [[1]]) [[1]] pingpong_params = Inr pingpong_field"
  by (simp add: precompute_affine_def get_affine_def batch_effect_def pingpong_field_def
      pingpong_params_def dot_def)

lemma pingpong_pass1:
  "loop_body store theta (initial_state filler [1 / 4] pingpong_field)
     = Inr (Continue \<lparr>ls_params = pingpong_field, ls_out = [store (5 / 4) 1 0],
                      ls_done = [False], ls_x = [1 / 2 + eps], ls_t = [3 / 4 - eps],
                      ls_c = [1], ls_cont = 1\<rparr>)"
  by (simp add: body_unfold initial_state_def pingpong_field_def pingpong_params_def)
     (simp add: eps_def)

lemma pingpong_pass2:
  "loop_body store theta
     \<lparr>ls_params = pingpong_field, ls_out = [out], ls_done = [False],
      ls_x = [1 / 2 + eps], ls_t = [3 / 4 - eps], ls_c = [1], ls_cont = 1\<rparr>
     = Inr (Continue \<lparr>ls_params = pingpong_field,
                      ls_out = [store (- 1 / 4 + 2 * eps) (3 / 4 - eps) 1], ls_done = [False],
                      ls_x = [1 / 2 - eps], ls_t = [3 / 4 - 3 * eps], ls_c = [0],
                      ls_cont = 2\<rparr>)"
  by (simp add: body_unfold pingpong_field_def pingpong_params_def eps_def)

lemma pingpong_pass3:
  "loop_body store theta
     \<lparr>ls_params = pingpong_field, ls_out = [out], ls_done = [False],
      ls_x = [1 / 2 - eps], ls_t = [3 / 4 - 3 * eps], ls_c = [0], ls_cont = 2\<rparr>
     = Inr (Continue \<lparr>ls_params = pingpong_field,
                      ls_out = [store (5 / 4 - 4 * eps) (3 / 4 - 3 * eps) 0], ls_done = [False],
                      ls_x = [1 / 2 + eps], ls_t = [3 / 4 - 5 * eps], ls_c = [1],
                      ls_cont = 3\<rparr>)"
  by (simp add: body_unfold pingpong_field_def pingpong_params_def eps_def)

lemma pingpong_raises:
  "cell_loop store theta (initial_state filler [1 / 4] pingpong_field) = (Inl BaseException, 3)"
  by (simp add: cell_loop_Continue [OF pingpong_pass1] cell_loop_Continue [OF pingpong_pass2]
      cell_loop_Continue [OF pingpong_pass3])
     (simp add: pingpong_field_def pingpong_params_def)

text \<open>
  Claim C1. The cell-hopping loop of \<open>integrate_closed_form\<close> and of
  \<open>integrate_closed_form_trace\<close> (the function \<open>cell_loop\<close>, started with \<open>cont = 0\<close>) is
  total, and for every input it exits with \<open>cont\<close> at most \<open>nc + 1\<close> (\<open>nc\<close> taken as 0
  when negative). It exits with \<open>cont = nc + 1\<close> exactly when it raises the fatal
  \<open>BaseException\<close>: a return, and so every trace, has at most \<open>nc\<close> crossings, and a
  pass that ends unfinished after \<open>nc\<close> crossings raises instead of looping on.
\<close>

theorem cell_loop_bounded:
  "0 \<le> snd (cell_loop store theta (initial_state filler x params))
   \<and> snd (cell_loop store theta (initial_state filler x params)) \<le> max 0 (nc params) + 1
   \<and> (fst (cell_loop store theta (initial_state filler x params)) = Inl BaseException
        \<longleftrightarrow> snd (cell_loop store theta (initial_state filler x params)) = max 0 (nc params) + 1)
   \<and> (\<forall>out. fst (cell_loop store theta (initial_state filler x params)) = Inr out
          \<longrightarrow> snd (cell_loop store theta (initial_state filler x params)) \<le> max 0 (nc params))"
proof -
  have "ls_cont (initial_state filler x params) = 0"
    and "ls_params (initial_state filler x params) = params"
    by (simp_all add: initial_state_def)
  then show ?thesis
    using cell_loop_cont [of "initial_state filler x params" store theta] by auto
qed

theorem cell_loop_bounded_witness:
  "integrate_closed_form [1 / 4] [[1]] pingpong_params = Inl BaseException
   \<and> integrate_closed_form_trace [1 / 4] [[1]] pingpong_params = Inl BaseException
   \<and> snd (cell_loop (\<lambda>psi t c. psi) [[1]] (initial_state 0 [1 / 4] pingpong_field))
       = nc pingpong_field + 1"
proof -
  have n: "nc pingpong_field = 2"
    by (simp add: pingpong_field_def pingpong_params_def)
  have b: "batch_effect [1 / 4] [[1]] = [1 / 4]"
    by (simp add: batch_effect_def)
  have "fst (cell_loop store [[1]] (initial_state filler [1 / 4] pingpong_field))
          = Inl BaseException" for store :: "real \<Rightarrow> real \<Rightarrow> int \<Rightarrow> 'a" and filler
    using cell_loop_bounded [of store "[[1]]" filler "[1 / 4]" pingpong_field]
      pingpong_raises [of store "[[1]]" filler] n by simp
  then show ?thesis
    using pingpong_precompute pingpong_raises [of "\<lambda>psi t c. psi" "[[1]]" 0] n
    unfolding b
    by (simp add: integrate_closed_form_def integrate_closed_form_trace_def b)
qed

section \<open>The array functions, one point at a time\<close>

text \<open>
  The values that the array functions compute for one point with batch index \<open>ri\<close> at
  position \<open>xi\<close>, when the cached field is in use and every lookup is in range.
\<close>

definition coef :: "params \<Rightarrow> nat \<Rightarrow> real \<Rightarrow> real \<times> real" where
  "coef params ri xi = A params ! ri ! nat (get_cell xi params)"

definition velocity1 :: "params \<Rightarrow> nat \<Rightarrow> real \<Rightarrow> real" where
  "velocity1 params ri xi = (case coef params ri xi of (a, b) \<Rightarrow> a * xi + b)"

definition psi1 :: "params \<Rightarrow> nat \<Rightarrow> real \<Rightarrow> real \<Rightarrow> real" where
  "psi1 params ri xi ti = (case coef params ri xi of (a, b) \<Rightarrow> psi_where a b xi ti)"

definition hit_time1 :: "params \<Rightarrow> nat \<Rightarrow> real \<Rightarrow> real" where
  "hit_time1 params ri xi =
     (case coef params ri xi of
        (a, b) \<Rightarrow> hit_time_where a b xi
                    (target_boundary (velocity1 params ri xi) (get_cell xi params) params))"

definition field_ok :: "params \<Rightarrow> bool" where
  "field_ok params \<longleftrightarrow>
     precomputed params \<and> 0 < nc params \<and>
     (\<forall>ri \<in> set (r params). ri < length (A params) \<and> nc params \<le> int (length (A params ! ri)))"

lemma get_cell_range:
  "0 < nc params \<Longrightarrow> 0 \<le> get_cell x params \<and> get_cell x params < nc params"
  by (simp add: get_cell_def clip_def)

lemma sequence_err_Inr:
  "\<forall>p \<in> set ps. g p = Inr (f p) \<Longrightarrow> sequence_err (map g ps) = Inr (map f ps)"
  by (induction ps) simp_all

lemma broadcast_same [simp]: "length xs = n \<Longrightarrow> broadcast n xs = xs"
  by (simp add: broadcast_def)

lemma gather_ok:
  assumes "length rs = length cs"
    and "\<forall>(ri, ci) \<in> set (zip rs cs). ri < length Af \<and> 0 \<le> ci \<and> ci < int (length (Af ! ri))"
  shows "gather Af rs cs = Inr (map2 (\<lambda>ri ci. Af ! ri ! nat ci) rs cs)"
proof -
  have "sequence_err (map (\<lambda>(ri, ci). case np_index Af (int ri) of Inl e \<Rightarrow> Inl e
                                       | Inr row \<Rightarrow> np_index row ci) (zip rs cs))
      = Inr (map (\<lambda>(ri, ci). Af ! ri ! nat ci) (zip rs cs))"
    using assms(2) by (intro sequence_err_Inr) (auto simp: np_index_def)
  then show ?thesis
    using assms(1) by (simp add: gather_def)
qed

lemma coefficients_ok:
  assumes "field_ok params" and "length (r params) = length x"
  shows "coefficients x theta params = Inr (map2 (coef params) (r params) x)"
proof -
  have pre: "get_affine x theta params = Inr (A params, r params)"
    using assms(1) by (simp add: get_affine_def field_ok_def)
  have "gather (A params) (r params) (map (\<lambda>xi. get_cell xi params) x)
      = Inr (map2 (\<lambda>ri ci. A params ! ri ! nat ci) (r params) (map (\<lambda>xi. get_cell xi params) x))"
  proof (rule gather_ok)
    show "length (r params) = length (map (\<lambda>xi. get_cell xi params) x)"
      using assms(2) by simp
    show "\<forall>(ri, ci)\<in>set (zip (r params) (map (\<lambda>xi. get_cell xi params) x)).
       ri < length (A params) \<and> 0 \<le> ci \<and> ci < int (length (A params ! ri))"
    proof clarify
      fix ri ci
      assume "(ri, ci) \<in> set (zip (r params) (map (\<lambda>xi. get_cell xi params) x))"
      then have ri: "ri \<in> set (r params)" and "ci \<in> set (map (\<lambda>xi. get_cell xi params) x)"
        by (auto dest: set_zip_leftD set_zip_rightD)
      then obtain xi where "ci = get_cell xi params" by auto
      then have "0 \<le> ci \<and> ci < nc params"
        using assms(1) get_cell_range by (simp add: field_ok_def)
      then show "ri < length (A params) \<and> 0 \<le> ci \<and> ci < int (length (A params ! ri))"
        using assms(1) ri by (auto simp: field_ok_def)
    qed
  qed
  also have "map2 (\<lambda>ri ci. A params ! ri ! nat ci) (r params) (map (\<lambda>xi. get_cell xi params) x)
           = map2 (coef params) (r params) x"
    by (simp add: zip_map2 coef_def split_def)
  finally show ?thesis
    by (simp add: coefficients_def pre)
qed

lemma get_velocity_ok:
  assumes "field_ok params" and "length (r params) = length x"
  shows "get_velocity x theta params = Inr (map2 (velocity1 params) (r params) x)"
proof -
  have "map2 (\<lambda>(a, b) xi. a * xi + b) (map2 (coef params) (r params) x) x
      = map2 (velocity1 params) (r params) x"
    using assms(2) by (simp add: list_eq_iff_nth_eq velocity1_def split_def)
  then show ?thesis
    using assms(2) by (simp add: get_velocity_def coefficients_ok [OF assms])
qed


lemma get_psi_ok:
  assumes "field_ok params" and "length (r params) = length x" and "length t = length x"
  shows "get_psi x t theta params
       = Inr (map (\<lambda>(ri, xi, ti). psi1 params ri xi ti) (zip (r params) (zip x t)))"
proof -
  have "map2 (\<lambda>(a, b) (xi, ti). psi_where a b xi ti) (map2 (coef params) (r params) x) (zip x t)
      = map (\<lambda>(ri, xi, ti). psi1 params ri xi ti) (zip (r params) (zip x t))"
    using assms(2,3) by (simp add: list_eq_iff_nth_eq psi1_def split_def)
  then show ?thesis
    using assms(2,3) by (simp add: get_psi_def coefficients_ok [OF assms(1,2)])
qed

lemma get_hit_time_ok:
  assumes "field_ok params" and "length (r params) = length x"
  shows "get_hit_time x theta params = Inr (map2 (hit_time1 params) (r params) x)"
proof -
  have pre: "get_affine x theta params = Inr (A params, r params)"
    using assms(1) by (simp add: get_affine_def field_ok_def)
  have co: "gather (A params) (r params) (map (\<lambda>xi. get_cell xi params) x)
          = Inr (map2 (coef params) (r params) x)"
    using coefficients_ok [OF assms, of theta] by (simp add: coefficients_def pre)
  have "map2 (\<lambda>(a, b) (xi, xci). hit_time_where a b xi xci) (map2 (coef params) (r params) x)
          (zip x (map2 (\<lambda>vi ci. target_boundary vi ci params)
                       (map2 (velocity1 params) (r params) x)
                       (map (\<lambda>xi. get_cell xi params) x)))
      = map2 (hit_time1 params) (r params) x"
    using assms(2) by (simp add: list_eq_iff_nth_eq hit_time1_def split_def)
  then show ?thesis
    using assms(2) by (simp add: get_hit_time_def pre co get_velocity_ok [OF assms])
qed

text \<open>Shapes of the inputs under which the field resolves and every lookup is in range.\<close>

definition shapes_ok :: "real list list \<Rightarrow> params \<Rightarrow> bool" where
  "shapes_ok theta params \<longleftrightarrow>
     theta \<noteq> [] \<and> (\<forall>row \<in> set (B params). length row = length (hd theta))
     \<and> even (length (B params)) \<and> 0 < nc params \<and> nc params \<le> int (length (B params) div 2)"

definition resolve :: "real list list \<Rightarrow> params \<Rightarrow> (real \<times> real) list list" where
  "resolve theta params =
     map (\<lambda>th. map (\<lambda>j. (dot (B params ! (2 * j)) th, dot (B params ! (2 * j + 1)) th))
                    [0..<length (B params) div 2]) theta"

definition resolved :: "real list \<Rightarrow> real list list \<Rightarrow> params \<Rightarrow> params" where
  "resolved x theta params =
     params\<lparr>precomputed := True, A := resolve theta params,
            r := concat (map (replicate (length x)) [0..<length theta])\<rparr>"

lemma length_batch_indices:
  "length (concat (map (replicate m) [0..<n])) = n * m"
  by (induction n) simp_all

lemma length_batch_effect: "length (batch_effect x theta) = length theta * length x"
  by (induction theta) (simp_all add: batch_effect_def)

lemma precompute_ok:
  assumes "shapes_ok theta params"
  shows "precompute_affine (batch_effect x theta) theta params = Inr (resolved x theta params)"
proof -
  note length_batch_effect [of x theta]
  moreover have "0 < length theta"
    using assms by (simp add: shapes_ok_def)
  ultimately have "length (batch_effect x theta) div length theta = length x"
    by simp
  then show ?thesis
    using assms
    by (auto simp: precompute_affine_def get_affine_def shapes_ok_def resolved_def resolve_def Let_def)
qed

lemma resolved_length:
  "length (r (resolved x theta params)) = length (batch_effect x theta)"
  by (simp add: resolved_def length_batch_indices length_batch_effect)

lemma resolved_field_ok:
  assumes "shapes_ok theta params"
  shows "field_ok (resolved x theta params)"
  using assms
  by (auto simp: field_ok_def resolved_def resolve_def shapes_ok_def)

section \<open>The numeric integrator, one point at a time\<close>

text \<open>
  The midpoint sub-step, the refined step of \<open>nSteps2\<close> sub-steps, and the outer step of
  one point: the closed-form flow over \<open>deltaT\<close> when it ends in the cell where the step
  starts, the refined midpoint step otherwise.
\<close>

definition midpoint1 :: "params \<Rightarrow> nat \<Rightarrow> real \<Rightarrow> real \<Rightarrow> real" where
  "midpoint1 params ri deltaT y =
     y + deltaT * velocity1 params ri (y + deltaT / 2 * velocity1 params ri y)"

definition phi_numeric1 :: "params \<Rightarrow> nat \<Rightarrow> real \<Rightarrow> real \<Rightarrow> real" where
  "phi_numeric1 params ri t x =
     ((midpoint1 params ri (t / real_of_int (nSteps2 params))) ^^ nat (nSteps2 params)) x"

definition numeric1 :: "params \<Rightarrow> nat \<Rightarrow> real \<Rightarrow> real \<Rightarrow> real" where
  "numeric1 params ri deltaT x =
     (let xTemp = psi1 params ri x deltaT
      in if get_cell x params = get_cell xTemp params then xTemp
         else phi_numeric1 params ri deltaT x)"

lemma for_range_Inr:
  assumes "\<And>y. P y \<Longrightarrow> body y = Inr (g y) \<and> P (g y)" and "P y"
  shows "for_range n body y = Inr ((g ^^ n) y)"
  using assms(2)
proof (induction n arbitrary: y)
  case 0
  then show ?case by simp
next
  case (Suc n)
  then show ?case
    using assms(1) [of y] by (simp add: funpow_swap1)
qed

lemma map2_snd: "length rs = length ys \<Longrightarrow> map2 (\<lambda>ri yi. yi) rs ys = ys"
  by (simp add: list_eq_iff_nth_eq)

lemma map2_map2_right:
  "length rs = length ys \<Longrightarrow> map2 f rs (map2 g rs ys) = map2 (\<lambda>ri yi. f ri (g ri yi)) rs ys"
  by (simp add: list_eq_iff_nth_eq)

lemma funpow_map2:
  fixes f :: "'r \<Rightarrow> 'a \<Rightarrow> 'a"
  shows "length rs = length ys \<Longrightarrow>
   ((\<lambda>zs. map2 f rs zs) ^^ n) ys = map2 (\<lambda>ri yi. (f ri ^^ n) yi) rs ys"
proof (induction n)
  case 0
  then show ?case by (simp add: map2_snd)
next
  case (Suc n)
  then show ?case by (simp add: map2_map2_right)
qed

lemma midpoint_step_ok:
  assumes "field_ok params" and "length (r params) = length yn"
  shows "midpoint_step deltaT theta params yn
       = Inr (map2 (\<lambda>ri yi. midpoint1 params ri deltaT yi) (r params) yn)"
proof -
  let ?mid = "map2 (\<lambda>yi vi. yi + deltaT / 2 * vi) yn (map2 (velocity1 params) (r params) yn)"
  have len: "length (r params) = length ?mid"
    using assms(2) by simp
  have "map2 (\<lambda>yi vi. yi + deltaT * vi) yn (map2 (velocity1 params) (r params) ?mid)
      = map2 (\<lambda>ri yi. midpoint1 params ri deltaT yi) (r params) yn"
    using assms(2) by (simp add: list_eq_iff_nth_eq midpoint1_def)
  moreover have "get_velocity ?mid theta params = Inr (map2 (velocity1 params) (r params) ?mid)"
    using assms(1) len by (rule get_velocity_ok)
  ultimately show ?thesis
    unfolding midpoint_step_def get_velocity_ok [OF assms] Let_def
    by simp
qed

lemma get_phi_numeric_ok:
  assumes "field_ok params" and "length (r params) = length x" and "nSteps2 params \<noteq> 0"
  shows "get_phi_numeric x t theta params
       = Inr (map2 (\<lambda>ri xi. phi_numeric1 params ri t xi) (r params) x)"
proof -
  define dT where "dT = t / real_of_int (nSteps2 params)"
  have "for_range n (midpoint_step dT theta params) x
      = Inr (((\<lambda>zs. map2 (\<lambda>ri yi. midpoint1 params ri dT yi) (r params) zs) ^^ n) x)" for n
    by (rule for_range_Inr [where P = "\<lambda>y. length (r params) = length y"])
       (simp_all add: midpoint_step_ok assms)
  then show ?thesis
    using assms(2,3)
    by (simp add: get_phi_numeric_def dT_def [symmetric] funpow_map2 phi_numeric1_def)
qed

lemma numeric_step_ok:
  assumes "field_ok params" and "length (r params) = length xPrev" and "nSteps2 params \<noteq> 0"
  shows "numeric_step deltaT theta params (xPrev, map (\<lambda>xi. get_cell xi params) xPrev)
       = Inr (map2 (\<lambda>ri xi. numeric1 params ri deltaT xi) (r params) xPrev,
              map (\<lambda>xi. get_cell xi params)
                  (map2 (\<lambda>ri xi. numeric1 params ri deltaT xi) (r params) xPrev))"
proof -
  have psi: "get_psi xPrev (map (\<lambda>_. deltaT) xPrev) theta params
           = Inr (map2 (\<lambda>ri xi. psi1 params ri xi deltaT) (r params) xPrev)"
    using assms(2) by (simp add: get_psi_ok [OF assms(1,2)] list_eq_iff_nth_eq)
  show ?thesis
    using assms(2)
    by (simp add: numeric_step_def psi get_phi_numeric_ok [OF assms] list_eq_iff_nth_eq
        numeric1_def Let_def)
qed

lemma integrate_numeric_flat:
  assumes "field_ok params" and "length (r params) = length xb" and "nSteps2 params \<noteq> 0"
  shows "for_range n (numeric_step deltaT theta params) (xb, map (\<lambda>xi. get_cell xi params) xb)
       = Inr (map2 (\<lambda>ri xi. (numeric1 params ri deltaT ^^ n) xi) (r params) xb,
              map (\<lambda>xi. get_cell xi params)
                  (map2 (\<lambda>ri xi. (numeric1 params ri deltaT ^^ n) xi) (r params) xb))"
proof -
  let ?g = "\<lambda>zs. map2 (\<lambda>ri xi. numeric1 params ri deltaT xi) (r params) zs"
  let ?G = "\<lambda>(zs :: real list, cs :: int list). (?g zs, map (\<lambda>xi. get_cell xi params) (?g zs))"
  have "for_range n (numeric_step deltaT theta params) (xb, map (\<lambda>xi. get_cell xi params) xb)
      = Inr ((?G ^^ n) (xb, map (\<lambda>xi. get_cell xi params) xb))"
    by (rule for_range_Inr
          [where P = "\<lambda>(zs, cs). length (r params) = length zs
                                \<and> cs = map (\<lambda>xi. get_cell xi params) zs"])
       (auto simp: numeric_step_ok assms)
  moreover have "(?G ^^ n) (zs, map (\<lambda>xi. get_cell xi params) zs)
               = ((?g ^^ n) zs, map (\<lambda>xi. get_cell xi params) ((?g ^^ n) zs))" for zs
    by (induction n) simp_all
  ultimately show ?thesis
    using assms(2) by (simp add: funpow_map2)
qed


lemma nth_batch_indices:
  "i < n \<Longrightarrow> j < m \<Longrightarrow> concat (map (replicate m) [0..<n]) ! (i * m + j) = i"
proof (induction n)
  case 0
  then show ?case by simp
next
  case (Suc n)
  show ?case
  proof (cases "i < n")
    case True
    then have "Suc i \<le> n" by simp
    then have "Suc i * m \<le> n * m" by (rule mult_le_mono1)
    then have "i * m + j < n * m" using Suc.prems(2) by simp
    then show ?thesis
      using Suc.IH [OF True Suc.prems(2)] by (simp add: nth_append length_batch_indices)
  next
    case False
    then have "i = n" using Suc.prems(1) by simp
    then show ?thesis
      using Suc.prems(2) by (simp add: nth_append length_batch_indices)
  qed
qed

lemma nth_batch_effect:
  "i < length theta \<Longrightarrow> j < length x \<Longrightarrow> batch_effect x theta ! (i * length x + j) = x ! j"
proof (induction theta arbitrary: i)
  case Nil
  then show ?case by simp
next
  case (Cons th theta)
  have be: "batch_effect x (th # theta) = x @ batch_effect x theta"
    by (simp add: batch_effect_def)
  show ?case
  proof (cases i)
    case 0
    then show ?thesis using Cons.prems(2) by (simp add: be nth_append)
  next
    case (Suc i')
    then have "i' < length theta" using Cons.prems(1) by simp
    then have "batch_effect x theta ! (i' * length x + j) = x ! j"
      using Cons.prems(2) by (rule Cons.IH)
    then show ?thesis using Suc by (simp add: be nth_append)
  qed
qed

text \<open>The flattened batch, reshaped: row \<open>i\<close> holds the results of batch \<open>i\<close>.\<close>

lemma reshape_rows_batch:
  "reshape_rows (length theta)
     (map2 f (concat (map (replicate (length x)) [0..<length theta])) (batch_effect x theta))
   = map (\<lambda>i. map (f i) x) [0..<length theta]"
proof -
  let ?n = "length theta" and ?m = "length x"
  let ?rs = "concat (map (replicate ?m) [0..<?n])"
  define ys where "ys = map2 f ?rs (batch_effect x theta)"
  have len: "length ys = ?n * ?m"
    by (simp add: ys_def length_batch_indices length_batch_effect)
  have row: "take ?m (drop (i * ?m) ys) = map (f i) x" if "i < ?n" for i
  proof -
    have "Suc i \<le> ?n" using that by simp
    then have le: "Suc i * ?m \<le> ?n * ?m" by (rule mult_le_mono1)
    then have l: "?m \<le> ?n * ?m - i * ?m" by simp
    have nth: "ys ! (i * ?m + j) = f i (x ! j)" if "j < ?m" for j
    proof -
      have lt: "i * ?m + j < ?n * ?m" using le that by simp
      then have "ys ! (i * ?m + j)
               = f (?rs ! (i * ?m + j)) (batch_effect x theta ! (i * ?m + j))"
        by (simp add: ys_def length_batch_indices length_batch_effect)
      then show ?thesis
        using \<open>i < ?n\<close> that by (simp add: nth_batch_indices nth_batch_effect)
    qed
    show ?thesis
    proof (rule nth_equalityI)
      show "length (take ?m (drop (i * ?m) ys)) = length (map (f i) x)"
        using l by (simp add: len)
    next
      fix j
      assume "j < length (take ?m (drop (i * ?m) ys))"
      then have j: "j < ?m" by simp
      have "i * ?m \<le> ?n * ?m"
        using that by (intro mult_le_mono1) simp
      then have "i * ?m \<le> length ys"
        by (simp only: len)
      then have "take ?m (drop (i * ?m) ys) ! j = ys ! (i * ?m + j)"
        using j by simp
      then show "take ?m (drop (i * ?m) ys) ! j = map (f i) x ! j"
        using nth [OF j] j by simp
    qed
  qed
  have "reshape_rows ?n ys = map (\<lambda>i. map (f i) x) [0..<?n]"
  proof (cases "?n = 0")
    case True
    then show ?thesis by (simp add: reshape_rows_def)
  next
    case False
    then have "length ys div ?n = ?m" by (simp add: len)
    then show ?thesis
      using row unfolding reshape_rows_def Let_def by simp
  qed
  then show ?thesis
    by (simp add: ys_def)
qed


lemma resolved_fields [simp]:
  "xmin (resolved x theta params) = xmin params"
  "xmax (resolved x theta params) = xmax params"
  "nc (resolved x theta params) = nc params"
  "B (resolved x theta params) = B params"
  "nSteps1 (resolved x theta params) = nSteps1 params"
  "nSteps2 (resolved x theta params) = nSteps2 params"
  "precomputed (resolved x theta params)"
  "A (resolved x theta params) = resolve theta params"
  by (simp_all add: resolved_def)

lemma integrate_numeric_ok:
  assumes "shapes_ok theta params" and "nSteps1 params \<noteq> 0" and "nSteps2 params \<noteq> 0"
  shows "integrate_numeric x theta params
       = Inr (map (\<lambda>i. map (\<lambda>xj. ((numeric1 (resolved x theta params) i
                                          (1 / real_of_int (nSteps1 params)))
                                        ^^ nat (nSteps1 params)) xj) x)
                  [0..<length theta])"
proof -
  let ?p = "resolved x theta params"
  have ok: "field_ok ?p" and len: "length (r ?p) = length (batch_effect x theta)"
    using assms(1) by (simp_all add: resolved_field_ok resolved_length)
  have n2: "nSteps2 ?p \<noteq> 0"
    using assms(3) by simp
  have rs: "r ?p = concat (map (replicate (length x)) [0..<length theta])"
    by (simp add: resolved_def)
  show ?thesis
    using assms(2)
    unfolding integrate_numeric_def Let_def precompute_ok [OF assms(1)]
    by (simp add: integrate_numeric_flat [OF ok len n2] rs reshape_rows_batch)
qed

text \<open>
  A decaying field on one cell: \<open>v(x) = -2 x\<close> on \<open>[0, 1]\<close>, with one outer step and one
  sub-step.
\<close>

definition decay_params :: params where
  "decay_params =
     \<lparr>xmin = 0, xmax = 1, nc = 1, B = [[- 2], [0]], nSteps1 = 1, nSteps2 = 1,
      precomputed = False, A = [], r = []\<rparr>"

lemma decay_shapes: "shapes_ok [[1]] decay_params"
  by (simp add: shapes_ok_def decay_params_def)

lemma decay_resolved:
  "resolved [1 / 2] [[1]] decay_params
     = decay_params\<lparr>precomputed := True, A := [[(- 2, 0)]], r := [0]\<rparr>"
  by (simp add: resolved_def resolve_def decay_params_def dot_def)

lemma decay_cell: "get_cell x (resolved [1 / 2] [[1]] decay_params) = 0"
  by (simp add: get_cell_def clip_def decay_params_def)

lemma decay_coef: "coef (resolved [1 / 2] [[1]] decay_params) 0 x = (- 2, 0)"
  by (simp add: coef_def decay_cell) (simp add: resolve_def decay_params_def dot_def)

lemma decay_numeric1:
  "numeric1 (resolved [1 / 2] [[1]] decay_params) 0 1 (1 / 2) = exp (- 2) / 2"
  by (simp add: numeric1_def psi1_def decay_coef decay_cell psi_where_def)

lemma decay_phi_numeric1:
  "phi_numeric1 (resolved [1 / 2] [[1]] decay_params) 0 1 (1 / 2) = 1 / 2"
proof -
  have "nSteps2 decay_params = 1"
    by (simp add: decay_params_def)
  then show ?thesis
    by (simp add: phi_numeric1_def midpoint1_def velocity1_def decay_coef)
qed


text \<open>
  Claim C6, as amended. \<open>integrate_numeric\<close> takes \<open>nSteps1\<close> outer steps of length
  \<open>1 / nSteps1\<close> for every point of every batch. An outer step of a point is the
  closed-form flow \<open>psi\<close> of its cell when that flow ends in the cell where the step
  starts, and otherwise the fixed-step midpoint update refined by \<open>nSteps2\<close> sub-steps,
  each of which recomputes the cell and the velocity (\<open>numeric1\<close>, \<open>phi_numeric1\<close>
  and \<open>midpoint1\<close>).
\<close>

theorem integrate_numeric_steps:
  assumes "shapes_ok theta params" and "nSteps1 params \<noteq> 0" and "nSteps2 params \<noteq> 0"
  shows "integrate_numeric x theta params
       = Inr (map (\<lambda>i. map (\<lambda>xj. ((numeric1 (resolved x theta params) i
                                          (1 / real_of_int (nSteps1 params)))
                                        ^^ nat (nSteps1 params)) xj) x)
                  [0..<length theta])"
  using assms by (rule integrate_numeric_ok)

theorem integrate_numeric_steps_witness:
  "integrate_numeric [1 / 2] [[1]] decay_params = Inr [[exp (- 2) / 2]]"
proof -
  have "nSteps1 decay_params = 1" and "nSteps2 decay_params = 1"
    by (simp_all add: decay_params_def)
  then show ?thesis
    using integrate_numeric_steps [of "[[1]]" decay_params "[1 / 2]"] decay_shapes
    by (simp add: decay_numeric1)
qed

text \<open>
  Claim C6 as stated fails: for the decaying field the single outer step returns the
  closed-form value \<open>exp (-2) / 2\<close>, and the midpoint update of the same step is \<open>1/2\<close>.
\<close>

theorem numeric_step_not_midpoint:
  "numeric_step 1 [[1]] (resolved [1 / 2] [[1]] decay_params) ([1 / 2], [0])
     = Inr ([exp (- 2) / 2], [0])
   \<and> get_phi_numeric [1 / 2] 1 [[1]] (resolved [1 / 2] [[1]] decay_params) = Inr [1 / 2]
   \<and> integrate_numeric [1 / 2] [[1]] decay_params = Inr [[exp (- 2) / 2]]
   \<and> exp (- 2) / 2 \<noteq> (1 / 2 :: real)"
proof -
  let ?p = "resolved [1 / 2] [[1]] decay_params"
  have ok: "field_ok ?p"
    using decay_shapes by (rule resolved_field_ok)
  have len: "length (r ?p) = length [1 / 2 :: real]"
    by (simp add: resolved_def)
  have n2: "nSteps2 ?p \<noteq> 0"
    by (simp add: decay_params_def)
  have rs: "r ?p = [0]"
    by (simp add: resolved_def)
  have "numeric_step 1 [[1]] ?p ([1 / 2], map (\<lambda>xi. get_cell xi ?p) [1 / 2])
      = Inr ([exp (- 2) / 2], [0])"
    unfolding numeric_step_ok [OF ok len n2] by (simp add: rs decay_numeric1 decay_cell)
  then have "numeric_step 1 [[1]] ?p ([1 / 2], [0]) = Inr ([exp (- 2) / 2], [0])"
    by (simp add: decay_cell)
  moreover have "get_phi_numeric [1 / 2] 1 [[1]] ?p = Inr [1 / 2]"
    unfolding get_phi_numeric_ok [OF ok len n2] by (simp add: rs decay_phi_numeric1)
  moreover have "integrate_numeric [1 / 2] [[1]] decay_params = Inr [[exp (- 2) / 2]]"
  proof -
    have "nSteps1 decay_params = 1" and "nSteps2 decay_params = 1"
      by (simp_all add: decay_params_def)
    then show ?thesis
      using integrate_numeric_ok [of "[[1]]" decay_params "[1 / 2]"] decay_shapes
      by (simp add: decay_numeric1)
  qed
  moreover have "exp (- 2) / 2 \<noteq> (1 / 2 :: real)"
    by simp
  ultimately show ?thesis
    by blast
qed

section \<open>The two branches of \<open>get_psi\<close> and \<open>get_hit_time\<close> in IEEE arithmetic\<close>

text \<open>
  The real-number model cannot tell whether the branch that \<^verbatim>\<open>np.where\<close> discards was
  computed. For the two elementwise bodies the special values of IEEE arithmetic are
  therefore made explicit: a value is a finite real, an infinity or \<^verbatim>\<open>nan\<close>. Finite
  results are not rounded, zero is \<^verbatim>\<open>+0.0\<close>, and, as the source sets
  \<^verbatim>\<open>np.seterr(divide="ignore", invalid="ignore")\<close>, every operation returns a value.
  \<^verbatim>\<open>np.exp\<close> overflows to \<^verbatim>\<open>inf\<close> when the exponential exceeds the largest double,
  \<open>(2 ^ 53 - 1) * 2 ^ 971\<close>.
\<close>

datatype ieee = Finite real | PosInf | NegInf | NaN

fun ieee_neg :: "ieee \<Rightarrow> ieee" where
  "ieee_neg (Finite x) = Finite (- x)"
| "ieee_neg PosInf = NegInf"
| "ieee_neg NegInf = PosInf"
| "ieee_neg NaN = NaN"

fun ieee_add :: "ieee \<Rightarrow> ieee \<Rightarrow> ieee" where
  "ieee_add (Finite x) (Finite y) = Finite (x + y)"
| "ieee_add NaN y = NaN"
| "ieee_add x NaN = NaN"
| "ieee_add PosInf NegInf = NaN"
| "ieee_add NegInf PosInf = NaN"
| "ieee_add PosInf y = PosInf"
| "ieee_add x PosInf = PosInf"
| "ieee_add NegInf y = NegInf"
| "ieee_add x NegInf = NegInf"

definition ieee_sub :: "ieee \<Rightarrow> ieee \<Rightarrow> ieee" where
  "ieee_sub x y = ieee_add x (ieee_neg y)"

text \<open>The infinity with the sign of a nonzero real.\<close>

definition signed_inf :: "real \<Rightarrow> ieee" where
  "signed_inf s = (if s > 0 then PosInf else NegInf)"

fun ieee_mul :: "ieee \<Rightarrow> ieee \<Rightarrow> ieee" where
  "ieee_mul (Finite x) (Finite y) = Finite (x * y)"
| "ieee_mul NaN y = NaN"
| "ieee_mul x NaN = NaN"
| "ieee_mul (Finite x) PosInf = (if x = 0 then NaN else signed_inf x)"
| "ieee_mul (Finite x) NegInf = (if x = 0 then NaN else signed_inf (- x))"
| "ieee_mul PosInf (Finite y) = (if y = 0 then NaN else signed_inf y)"
| "ieee_mul NegInf (Finite y) = (if y = 0 then NaN else signed_inf (- y))"
| "ieee_mul PosInf PosInf = PosInf"
| "ieee_mul NegInf NegInf = PosInf"
| "ieee_mul PosInf NegInf = NegInf"
| "ieee_mul NegInf PosInf = NegInf"

fun ieee_div :: "ieee \<Rightarrow> ieee \<Rightarrow> ieee" where
  "ieee_div (Finite x) (Finite y) =
     (if y = 0 then (if x = 0 then NaN else signed_inf x) else Finite (x / y))"
| "ieee_div NaN y = NaN"
| "ieee_div x NaN = NaN"
| "ieee_div (Finite x) PosInf = Finite 0"
| "ieee_div (Finite x) NegInf = Finite 0"
| "ieee_div PosInf (Finite y) = (if y \<ge> 0 then PosInf else NegInf)"
| "ieee_div NegInf (Finite y) = (if y \<ge> 0 then NegInf else PosInf)"
| "ieee_div PosInf PosInf = NaN"
| "ieee_div PosInf NegInf = NaN"
| "ieee_div NegInf PosInf = NaN"
| "ieee_div NegInf NegInf = NaN"

definition double_max :: real where
  "double_max = (2 ^ 53 - 1) * 2 ^ 971"

fun ieee_exp :: "ieee \<Rightarrow> ieee" where
  "ieee_exp (Finite x) = (if double_max < exp x then PosInf else Finite (exp x))"
| "ieee_exp PosInf = PosInf"
| "ieee_exp NegInf = Finite 0"
| "ieee_exp NaN = NaN"

fun ieee_log :: "ieee \<Rightarrow> ieee" where
  "ieee_log (Finite x) = (if x > 0 then Finite (ln x) else if x = 0 then NegInf else NaN)"
| "ieee_log PosInf = PosInf"
| "ieee_log NegInf = NaN"
| "ieee_log NaN = NaN"

text \<open>
  The local arrays of \<^verbatim>\<open>get_psi\<close> and of \<^verbatim>\<open>get_hit_time\<close> for one element, in
  the order in which the source computes them: the test, both branches, the selection.
\<close>

record branches =
  br_cond :: bool
  br_x1 :: ieee
  br_x2 :: ieee
  br_selected :: ieee

definition get_psi_branches :: "ieee \<Rightarrow> ieee \<Rightarrow> ieee \<Rightarrow> ieee \<Rightarrow> branches" where
  "get_psi_branches a b x t =
     (let c = (a = Finite 0);
          u = ieee_add x (ieee_mul t b);
          w = ieee_sub (ieee_mul (ieee_exp (ieee_mul t a)) (ieee_add x (ieee_div b a)))
                       (ieee_div b a)
      in \<lparr>br_cond = c, br_x1 = u, br_x2 = w, br_selected = (if c then u else w)\<rparr>)"

definition get_hit_time_branches :: "ieee \<Rightarrow> ieee \<Rightarrow> ieee \<Rightarrow> ieee \<Rightarrow> branches" where
  "get_hit_time_branches a b x xc =
     (let c = (a = Finite 0);
          u = ieee_div (ieee_sub xc x) b;
          w = ieee_div (ieee_log (ieee_div (ieee_add xc (ieee_div b a))
                                           (ieee_add x (ieee_div b a)))) a
      in \<lparr>br_cond = c, br_x1 = u, br_x2 = w, br_selected = (if c then u else w)\<rparr>)"

lemma double_max_ge_one [simp]: "\<not> double_max < 1"
proof -
  have "(1 :: real) * 1 \<le> (2 ^ 53 - 1) * 2 ^ 971"
    by (intro mult_mono) simp_all
  then show ?thesis
    by (simp add: double_max_def)
qed

lemma psi_suppressed_nan:
  "br_x2 (get_psi_branches (Finite 0) (Finite b) (Finite x) (Finite t)) = NaN"
  by (simp add: Let_def get_psi_branches_def ieee_sub_def signed_inf_def)

lemma psi_selected_zero:
  "br_selected (get_psi_branches (Finite 0) (Finite b) (Finite x) (Finite t))
     = Finite (psi_where 0 b x t)"
  by (simp add: Let_def get_psi_branches_def psi_where_def)

lemma hit_time_suppressed_nan:
  "br_x2 (get_hit_time_branches (Finite 0) (Finite b) (Finite x) (Finite xc)) = NaN"
  by (simp add: Let_def get_hit_time_branches_def ieee_sub_def signed_inf_def)

lemma hit_time_selected_zero:
  "b \<noteq> 0 \<Longrightarrow> br_selected (get_hit_time_branches (Finite 0) (Finite b) (Finite x) (Finite xc))
     = Finite (hit_time_where 0 b x xc)"
  by (simp add: Let_def get_hit_time_branches_def hit_time_where_def ieee_sub_def)

lemma hit_time_selected_nonzero:
  "a \<noteq> 0 \<Longrightarrow> x + b / a \<noteq> 0 \<Longrightarrow> 0 < (xc + b / a) / (x + b / a) \<Longrightarrow>
   br_selected (get_hit_time_branches (Finite a) (Finite b) (Finite x) (Finite xc))
     = Finite (hit_time_where a b x xc)"
  by (simp add: Let_def get_hit_time_branches_def hit_time_where_def ieee_sub_def)


text \<open>
  Claim C4, as amended. \<open>get_psi\<close> and \<open>get_hit_time\<close> compute both branches for
  every element and select afterwards. Where \<open>a = 0\<close> the branch for \<open>a \<noteq> 0\<close> is
  computed all the same and is \<^verbatim>\<open>nan\<close> (it divides by \<open>a\<close>); the value selected is the
  one of the \<open>a = 0\<close> branch, \<open>x + t b\<close> and (for \<open>b \<noteq> 0\<close>) \<open>(xc - x) / b\<close>.
\<close>

theorem branches_selected_after:
  "br_x2 (get_psi_branches (Finite 0) (Finite b) (Finite x) (Finite t)) = NaN
   \<and> br_selected (get_psi_branches (Finite 0) (Finite b) (Finite x) (Finite t))
       = Finite (x + t * b)
   \<and> br_x2 (get_hit_time_branches (Finite 0) (Finite b) (Finite x) (Finite xc)) = NaN
   \<and> (b \<noteq> 0 \<longrightarrow>
        br_selected (get_hit_time_branches (Finite 0) (Finite b) (Finite x) (Finite xc))
          = Finite ((xc - x) / b))"
proof -
  have "psi_where 0 b x t = x + t * b" and "hit_time_where 0 b x xc = (xc - x) / b"
    by (simp_all add: psi_where_def hit_time_where_def)
  then show ?thesis
    using psi_suppressed_nan [of b x t] psi_selected_zero [of b x t]
      hit_time_suppressed_nan [of b x xc] hit_time_selected_zero [of b x xc]
    by simp
qed

theorem branches_selected_after_witness:
  "br_selected (get_hit_time_branches (Finite 0) (Finite 1) (Finite (1 / 2)) (Finite 1))
     = Finite (1 / 2)
   \<and> br_selected (get_psi_branches (Finite 0) (Finite 1) (Finite (1 / 2)) (Finite 1))
     = Finite (3 / 2)"
  using branches_selected_after [of 1 "1 / 2" 1 1] by simp

text \<open>
  Claim C4 as stated fails: for \<open>a = 0\<close>, \<open>b = 1\<close>, \<open>x = 1/2\<close> the branch that is
  discarded has been computed, and it is \<^verbatim>\<open>nan\<close> in both functions.
\<close>

theorem suppressed_branch_is_nan:
  "br_cond (get_psi_branches (Finite 0) (Finite 1) (Finite (1 / 2)) (Finite 1))
   \<and> br_x2 (get_psi_branches (Finite 0) (Finite 1) (Finite (1 / 2)) (Finite 1)) = NaN
   \<and> br_cond (get_hit_time_branches (Finite 0) (Finite 1) (Finite (1 / 2)) (Finite 1))
   \<and> br_x2 (get_hit_time_branches (Finite 0) (Finite 1) (Finite (1 / 2)) (Finite 1)) = NaN"
  using psi_suppressed_nan [of 1 "1 / 2" 1] hit_time_suppressed_nan [of 1 "1 / 2" 1]
  by (simp add: get_psi_branches_def get_hit_time_branches_def Let_def)

section \<open>The cell-hopping loop, one point at a time\<close>

text \<open>
  An active point of the loop: its batch index, position, remaining time and working
  cell. The arrays \<open>r\<close>, \<open>x\<close>, \<open>t\<close> and \<open>c\<close> of a loop state are the four columns of
  its list of points.
\<close>

type_synonym point = "nat \<times> real \<times> real \<times> int"

definition points :: "'a loop_state \<Rightarrow> point list" where
  "points s = zip (r (ls_params s)) (zip (ls_x s) (zip (ls_t s) (ls_c s)))"

definition aligned :: "'a loop_state \<Rightarrow> bool" where
  "aligned s \<longleftrightarrow>
     length (r (ls_params s)) = length (ls_x s) \<and> length (ls_t s) = length (ls_x s)
     \<and> length (ls_c s) = length (ls_x s) \<and> length (ls_out s) = length (ls_done s)
     \<and> length (filter Not (ls_done s)) = length (ls_x s)"

definition pt_valid :: "params \<Rightarrow> point \<Rightarrow> bool" where
  "pt_valid params p =
     (case p of (ri, xi, ti, ci) \<Rightarrow>
        valid_test params ci (velocity1 params ri xi) (psi1 params ri xi ti))"

definition pt_store :: "(real \<Rightarrow> real \<Rightarrow> int \<Rightarrow> 'a) \<Rightarrow> params \<Rightarrow> point \<Rightarrow> 'a" where
  "pt_store store params p = (case p of (ri, xi, ti, ci) \<Rightarrow> store (psi1 params ri xi ti) ti ci)"

definition pt_next :: "params \<Rightarrow> point \<Rightarrow> point" where
  "pt_next params p =
     (case p of (ri, xi, ti, ci) \<Rightarrow>
        (ri,
         clip (psi1 params ri xi ti) (left_boundary ci params) (right_boundary ci params),
         ti - hit_time1 params ri xi,
         if velocity1 params ri xi \<ge> 0 then ci + 1 else ci - 1))"

text \<open>The state that the body of the loop hands to the next pass.\<close>

definition next_state :: "(real \<Rightarrow> real \<Rightarrow> int \<Rightarrow> 'a) \<Rightarrow> 'a loop_state \<Rightarrow> 'a loop_state" where
  "next_state store s =
     (let params = ls_params s;
          ps = map (pt_next params) (filter (\<lambda>p. \<not> pt_valid params p) (points s))
      in \<lparr>ls_params = params\<lparr>r := map fst ps\<rparr>,
          ls_out = mask_assign (ls_out s) (map Not (ls_done s))
                     (map (pt_store store params) (points s)),
          ls_done = mask_assign (ls_done s) (map Not (ls_done s))
                      (map (pt_valid params) (points s)),
          ls_x = map (\<lambda>(ri, xi, ti, ci). xi) ps,
          ls_t = map (\<lambda>(ri, xi, ti, ci). ti) ps,
          ls_c = map (\<lambda>(ri, xi, ti, ci). ci) ps,
          ls_cont = ls_cont s + 1\<rparr>)"

lemma mask_select_map: "mask_select (map f ps) (map g ps) = map f (filter g ps)"
  by (induction ps) (simp_all add: mask_select_def)

lemma mask_select_map2:
  "length xs = length ps \<Longrightarrow> mask_select xs (map g ps) = map fst (filter (g \<circ> snd) (zip xs ps))"
  by (induction xs ps rule: list_induct2) (simp_all add: mask_select_def)

lemma field_independent_of_r [simp]:
  "get_cell x (params\<lparr>r := rs\<rparr>) = get_cell x params"
  "left_boundary c (params\<lparr>r := rs\<rparr>) = left_boundary c params"
  "right_boundary c (params\<lparr>r := rs\<rparr>) = right_boundary c params"
  "coef (params\<lparr>r := rs\<rparr>) ri x = coef params ri x"
  "velocity1 (params\<lparr>r := rs\<rparr>) ri x = velocity1 params ri x"
  "psi1 (params\<lparr>r := rs\<rparr>) ri x t = psi1 params ri x t"
  "hit_time1 (params\<lparr>r := rs\<rparr>) ri x = hit_time1 params ri x"
  by (simp_all add: get_cell_def left_boundary_def right_boundary_def coef_def velocity1_def
      psi1_def hit_time1_def target_boundary_def)

lemma points_columns:
  assumes "aligned s"
  shows "r (ls_params s) = map (\<lambda>(ri, xi, ti, ci). ri) (points s)"
    and "ls_x s = map (\<lambda>(ri, xi, ti, ci). xi) (points s)"
    and "ls_t s = map (\<lambda>(ri, xi, ti, ci). ti) (points s)"
    and "ls_c s = map (\<lambda>(ri, xi, ti, ci). ci) (points s)"
  using assms by (simp_all add: aligned_def points_def list_eq_iff_nth_eq)


lemma field_ok_sublist:
  "field_ok params \<Longrightarrow> set rs \<subseteq> set (r params) \<Longrightarrow> field_ok (params\<lparr>r := rs\<rparr>)"
  by (auto simp: field_ok_def)

lemma loop_body_points:
  assumes ok: "field_ok (ls_params s)" and al: "aligned s"
  shows "loop_body store theta s =
           (if list_all (pt_valid (ls_params s)) (points s)
            then Inr (Finished (mask_assign (ls_out s) (map Not (ls_done s))
                                  (map (pt_store store (ls_params s)) (points s))))
            else Inr (Continue (next_state store s)))"
proof -
  define params where "params = ls_params s"
  define ps where "ps = points s"
  define bad where "bad = filter (\<lambda>p. \<not> pt_valid params p) ps"
  note cols = points_columns [OF al, folded params_def ps_def]
  have lens: "length (r params) = length (ls_x s)" "length (ls_t s) = length (ls_x s)"
    using al by (simp_all add: aligned_def params_def)
  have ok': "field_ok params"
    using ok by (simp add: params_def)
  have v: "get_velocity (ls_x s) theta params
         = Inr (map (\<lambda>(ri, xi, ti, ci). velocity1 params ri xi) ps)"
    unfolding get_velocity_ok [OF ok' lens(1)]
    by (simp add: cols(1,2) zip_map_map zip_same_conv_map split_def)
  have psi: "get_psi (ls_x s) (ls_t s) theta params
           = Inr (map (\<lambda>(ri, xi, ti, ci). psi1 params ri xi ti) ps)"
    unfolding get_psi_ok [OF ok' lens]
    by (simp add: cols(1,2,3) zip_map_map zip_same_conv_map split_def)
  have valid: "map (\<lambda>(ci, vi, psii). valid_test params ci vi psii)
                 (zip (ls_c s) (zip (map (\<lambda>(ri, xi, ti, ci). velocity1 params ri xi) ps)
                                    (map (\<lambda>(ri, xi, ti, ci). psi1 params ri xi ti) ps)))
             = map (pt_valid params) ps"
    by (simp add: cols(4) zip_map_map zip_same_conv_map split_def pt_valid_def)
  have stored: "map (\<lambda>(psii, ti, ci). store psii ti ci)
                  (zip (map (\<lambda>(ri, xi, ti, ci). psi1 params ri xi ti) ps)
                       (zip (ls_t s) (ls_c s)))
              = map (pt_store store params) ps"
    by (simp add: cols(3,4) zip_map_map zip_same_conv_map split_def pt_store_def)
  have all: "list_all id (map (pt_valid params) ps) = list_all (pt_valid params) ps"
    by (simp add: list_all_iff)
  have inv: "map Not (map (pt_valid params) ps) = map (\<lambda>p. \<not> pt_valid params p) ps"
    by simp
  have x1: "mask_select (ls_x s) (map (\<lambda>p. \<not> pt_valid params p) ps)
          = map (\<lambda>(ri, xi, ti, ci). xi) bad"
    by (subst cols(2)) (simp add: mask_select_map bad_def)
  have t1: "mask_select (ls_t s) (map (\<lambda>p. \<not> pt_valid params p) ps)
          = map (\<lambda>(ri, xi, ti, ci). ti) bad"
    by (subst cols(3)) (simp add: mask_select_map bad_def)
  have r1: "mask_select (r params) (map (\<lambda>p. \<not> pt_valid params p) ps)
          = map (\<lambda>(ri, xi, ti, ci). ri) bad"
    by (subst cols(1)) (simp add: mask_select_map bad_def)
  have sub: "set (map (\<lambda>(ri, xi, ti, ci). ri) bad) \<subseteq> set (r params)"
    by (subst cols(1)) (force simp: bad_def)
  have hit: "get_hit_time (map (\<lambda>(ri, xi, ti, ci). xi) bad) theta
               (params\<lparr>r := map (\<lambda>(ri, xi, ti, ci). ri) bad\<rparr>)
           = Inr (map (\<lambda>(ri, xi, ti, ci). hit_time1 params ri xi) bad)"
  proof -
    have "field_ok (params\<lparr>r := map (\<lambda>(ri, xi, ti, ci). ri) bad\<rparr>)"
      using ok' sub by (rule field_ok_sublist)
    moreover have "length (r (params\<lparr>r := map (\<lambda>(ri, xi, ti, ci). ri) bad\<rparr>))
                 = length (map (\<lambda>(ri, xi, ti, ci). xi) bad)"
      by simp
    ultimately show ?thesis
      by (simp add: get_hit_time_ok zip_map_map zip_same_conv_map split_def)
  qed
  have x2: "mask_select
              (map (\<lambda>(psii, l, u). clip psii l u)
                   (zip (map (\<lambda>(ri, xi, ti, ci). psi1 params ri xi ti) ps)
                        (zip (map (\<lambda>ci. left_boundary ci params) (ls_c s))
                             (map (\<lambda>ci. right_boundary ci params) (ls_c s)))))
              (map (\<lambda>p. \<not> pt_valid params p) ps)
          = map (\<lambda>(ri, xi, ti, ci). xi) (map (pt_next params) bad)"
    by (subst (1 2) cols(4))
       (simp add: zip_map_map zip_same_conv_map split_def mask_select_map bad_def pt_next_def
          comp_def)
  have t2: "map2 (-) (map (\<lambda>(ri, xi, ti, ci). ti) bad)
                     (map (\<lambda>(ri, xi, ti, ci). hit_time1 params ri xi) bad)
          = map (\<lambda>(ri, xi, ti, ci). ti) (map (pt_next params) bad)"
    by (simp add: zip_map_map zip_same_conv_map split_def pt_next_def comp_def)
  have c2: "mask_select
              (map2 (\<lambda>vi ci. if vi \<ge> 0 then ci + 1 else ci - 1)
                    (map (\<lambda>(ri, xi, ti, ci). velocity1 params ri xi) ps) (ls_c s))
              (map (\<lambda>p. \<not> pt_valid params p) ps)
          = map (\<lambda>(ri, xi, ti, ci). ci) (map (pt_next params) bad)"
    by (subst cols(4))
       (simp add: zip_map_map zip_same_conv_map split_def mask_select_map bad_def pt_next_def
          comp_def)
  have r2: "map (\<lambda>(ri, xi, ti, ci). ri) bad = map fst (map (pt_next params) bad)"
    by (simp add: pt_next_def split_def comp_def)
  show ?thesis
    unfolding loop_body_def Let_def params_def [symmetric] v psi sum.case valid stored all inv
      x1 t1 r1 hit x2 t2 c2
    unfolding r2 ps_def next_state_def Let_def bad_def params_def
    by (simp add: pt_next_def split_def comp_def)
qed

section \<open>One hop of the closed-form flow\<close>

lemma psi_where_stationary: "a * x + b = 0 \<Longrightarrow> psi_where a b x t = x"
proof (cases "a = 0")
  case True
  assume "a * x + b = 0"
  with True show ?thesis by (simp add: psi_where_def)
next
  case False
  assume "a * x + b = 0"
  then have y: "x + b / a = 0" using False by (simp add: field_simps)
  have "psi_where a b x t = exp (t * a) * (x + b / a) - b / a"
    using False by (simp add: psi_where_def)
  also have "\<dots> = - (b / a)"
    by (simp add: y)
  also have "\<dots> = x"
    using y by linarith
  finally show ?thesis .
qed

lemma psi_where_direction:
  assumes "0 \<le> t"
  shows "0 \<le> a * x + b \<Longrightarrow> x \<le> psi_where a b x t"
    and "a * x + b \<le> 0 \<Longrightarrow> psi_where a b x t \<le> x"
proof -
  have diff: "psi_where a b x t - x = (exp (t * a) - 1) * (x + b / a)" if "a \<noteq> 0"
    using that by (simp add: psi_where_def algebra_simps)
  have y0: "x + b / a = (a * x + b) / a" if "a \<noteq> 0"
    using that by (simp add: field_simps)
  show "x \<le> psi_where a b x t" if v: "0 \<le> a * x + b"
  proof (cases "a = 0")
    case True
    then show ?thesis using v assms by (simp add: psi_where_def)
  next
    case False
    have "0 \<le> (exp (t * a) - 1) * (x + b / a)"
    proof (cases "0 < a")
      case True
      then have "0 \<le> t * a" using assms by simp
      then have "0 \<le> exp (t * a) - 1" by simp
      moreover have "0 \<le> x + b / a" using True v by (simp add: y0 [OF False])
      ultimately show ?thesis by simp
    next
      case neg: False
      then have a: "a < 0" using False by simp
      then have "t * a \<le> 0" using assms by (simp add: mult_nonneg_nonpos)
      then have "exp (t * a) - 1 \<le> 0" by simp
      moreover have "x + b / a \<le> 0" using a v by (simp add: y0 [OF False] divide_nonneg_neg)
      ultimately show ?thesis by (simp add: mult_nonpos_nonpos)
    qed
    then show ?thesis using diff [OF False] by linarith
  qed
  show "psi_where a b x t \<le> x" if v: "a * x + b \<le> 0"
  proof (cases "a = 0")
    case True
    then show ?thesis using v assms by (simp add: psi_where_def mult_nonneg_nonpos)
  next
    case False
    have "(exp (t * a) - 1) * (x + b / a) \<le> 0"
    proof (cases "0 < a")
      case True
      then have "0 \<le> t * a" using assms by simp
      then have "0 \<le> exp (t * a) - 1" by simp
      moreover have "x + b / a \<le> 0" using True v by (simp add: y0 [OF False] divide_nonpos_pos)
      ultimately show ?thesis by (simp add: mult_nonneg_nonpos)
    next
      case neg: False
      then have a: "a < 0" using False by simp
      then have "t * a \<le> 0" using assms by (simp add: mult_nonneg_nonpos)
      then have "exp (t * a) - 1 \<le> 0" by simp
      moreover have "0 \<le> x + b / a" using a v by (simp add: y0 [OF False] divide_nonpos_neg)
      ultimately show ?thesis by (simp add: mult_nonpos_nonneg)
    qed
    then show ?thesis using diff [OF False] by linarith
  qed
qed


text \<open>
  The hit time of \<open>get_hit_time\<close> is a finite number when the divisions and the
  logarithm of the selected branch are: \<open>b \<noteq> 0\<close> where \<open>a = 0\<close>, and a nonzero
  denominator and a positive argument of the logarithm where \<open>a \<noteq> 0\<close>.
\<close>

definition hit_time_defined :: "real \<Rightarrow> real \<Rightarrow> real \<Rightarrow> real \<Rightarrow> bool" where
  "hit_time_defined a b x xc =
     (if a = 0 then b \<noteq> 0 else x + b / a \<noteq> 0 \<and> 0 < (xc + b / a) / (x + b / a))"

lemma hop_leaves:
  assumes t: "0 \<le> t" and lx: "l \<le> x" and xu: "x \<le> u"
    and out: "\<not> (l \<le> psi_where a b x t \<and> psi_where a b x t \<le> u)"
  shows "a * x + b \<noteq> 0"
    and "0 < a * x + b \<Longrightarrow> u < psi_where a b x t"
    and "a * x + b < 0 \<Longrightarrow> psi_where a b x t < l"
proof -
  show "a * x + b \<noteq> 0"
    using psi_where_stationary [of a x b t] lx xu out by auto
  show "u < psi_where a b x t" if "0 < a * x + b"
    using psi_where_direction(1) [OF t, of a x b] that lx out by simp
  show "psi_where a b x t < l" if "a * x + b < 0"
    using psi_where_direction(2) [OF t, of a x b] that xu out by simp
qed

lemma hop_hit_time_right:
  assumes t: "0 \<le> t" and xu: "x \<le> u" and v: "0 < a * x + b" and out: "u < psi_where a b x t"
  shows "hit_time_defined a b x u" and "hit_time_where a b x u < t"
proof -
  show "hit_time_defined a b x u"
  proof (cases "a = 0")
    case True
    then show ?thesis using v by (simp add: hit_time_defined_def)
  next
    case False
    define y0 where "y0 = x + b / a"
    define y1 where "y1 = u + b / a"
    have v0: "a * y0 = a * x + b" using False by (simp add: y0_def algebra_simps)
    have le: "y0 \<le> y1" using xu by (simp add: y0_def y1_def)
    have lt: "y1 < exp (t * a) * y0"
      using out False by (simp add: psi_where_def y0_def y1_def)
    have "0 < y1 / y0"
    proof (cases "0 < a")
      case True
      then have "0 < y0" using v v0 [symmetric] by (simp add: zero_less_mult_iff)
      then show ?thesis using le by simp
    next
      case neg: False
      then have "a < 0" using False by simp
      then have y0: "y0 < 0" using v v0 [symmetric] by (simp add: zero_less_mult_iff)
      then have "exp (t * a) * y0 < 0" by (simp add: mult_pos_neg)
      then have "y1 < 0" using lt by simp
      then show ?thesis using y0 by (simp add: divide_neg_neg)
    qed
    moreover have "y0 \<noteq> 0" using v v0 by auto
    ultimately show ?thesis using False by (simp add: hit_time_defined_def y0_def y1_def)
  qed
  show "hit_time_where a b x u < t"
  proof (cases "a = 0")
    case True
    then have b: "0 < b" and "u < x + t * b" using v out by (simp_all add: psi_where_def)
    then have "(u - x) / b < t" by (simp add: field_simps)
    then show ?thesis using True by (simp add: hit_time_where_def)
  next
    case False
    define y0 where "y0 = x + b / a"
    define y1 where "y1 = u + b / a"
    have v0: "a * y0 = a * x + b" using False by (simp add: y0_def algebra_simps)
    have le: "y0 \<le> y1" using xu by (simp add: y0_def y1_def)
    have lt: "y1 < exp (t * a) * y0"
      using out False by (simp add: psi_where_def y0_def y1_def)
    have "ln (y1 / y0) / a < t"
    proof (cases "0 < a")
      case True
      then have y0: "0 < y0" using v v0 [symmetric] by (simp add: zero_less_mult_iff)
      then have "0 < y1 / y0" using le by simp
      moreover have "y1 / y0 < exp (t * a)" using lt y0 by (simp add: field_simps)
      ultimately have "ln (y1 / y0) < t * a" by (metis ln_exp ln_less_cancel_iff exp_gt_zero)
      then show ?thesis using True by (simp add: field_simps)
    next
      case neg: False
      then have a: "a < 0" using False by simp
      then have y0: "y0 < 0" using v v0 [symmetric] by (simp add: zero_less_mult_iff)
      have "exp (t * a) < y1 / y0" using lt y0 by (simp add: field_simps)
      then have "t * a < ln (y1 / y0)" by (metis ln_exp ln_less_cancel_iff exp_gt_zero less_trans)
      then show ?thesis using a by (simp add: field_simps)
    qed
    then show ?thesis using False by (simp add: hit_time_where_def y0_def y1_def)
  qed
qed


lemma hop_hit_time_left:
  assumes t: "0 \<le> t" and lx: "l \<le> x" and v: "a * x + b < 0" and out: "psi_where a b x t < l"
  shows "hit_time_defined a b x l" and "hit_time_where a b x l < t"
proof -
  show "hit_time_defined a b x l"
  proof (cases "a = 0")
    case True
    then show ?thesis using v by (simp add: hit_time_defined_def)
  next
    case False
    define y0 where "y0 = x + b / a"
    define y1 where "y1 = l + b / a"
    have v0: "a * y0 = a * x + b" using False by (simp add: y0_def algebra_simps)
    have le: "y1 \<le> y0" using lx by (simp add: y0_def y1_def)
    have lt: "exp (t * a) * y0 < y1"
      using out False by (simp add: psi_where_def y0_def y1_def)
    have "0 < y1 / y0"
    proof (cases "0 < a")
      case True
      then have y0: "y0 < 0" using v v0 [symmetric] by (simp add: mult_less_0_iff)
      then have "y1 < 0" using le by simp
      then show ?thesis using y0 by (simp add: divide_neg_neg)
    next
      case neg: False
      then have "a < 0" using False by simp
      then have y0: "0 < y0" using v v0 [symmetric] by (simp add: mult_less_0_iff)
      then have "0 < exp (t * a) * y0" by simp
      then have "0 < y1" using lt by simp
      then show ?thesis using y0 by simp
    qed
    moreover have "y0 \<noteq> 0" using v v0 by auto
    ultimately show ?thesis using False by (simp add: hit_time_defined_def y0_def y1_def)
  qed
  show "hit_time_where a b x l < t"
  proof (cases "a = 0")
    case True
    then have b: "b < 0" and "x + t * b < l" using v out by (simp_all add: psi_where_def)
    then have "(l - x) / b < t" by (simp add: field_simps)
    then show ?thesis using True by (simp add: hit_time_where_def)
  next
    case False
    define y0 where "y0 = x + b / a"
    define y1 where "y1 = l + b / a"
    have v0: "a * y0 = a * x + b" using False by (simp add: y0_def algebra_simps)
    have le: "y1 \<le> y0" using lx by (simp add: y0_def y1_def)
    have lt: "exp (t * a) * y0 < y1"
      using out False by (simp add: psi_where_def y0_def y1_def)
    have "ln (y1 / y0) / a < t"
    proof (cases "0 < a")
      case True
      then have y0: "y0 < 0" using v v0 [symmetric] by (simp add: mult_less_0_iff)
      then have "y1 < 0" using le by simp
      then have "0 < y1 / y0" using y0 by (simp add: divide_neg_neg)
      moreover have "y1 / y0 < exp (t * a)" using lt y0 by (simp add: field_simps)
      ultimately have "ln (y1 / y0) < t * a" by (metis ln_exp ln_less_cancel_iff exp_gt_zero)
      then show ?thesis using True by (simp add: field_simps)
    next
      case neg: False
      then have a: "a < 0" using False by simp
      then have y0: "0 < y0" using v v0 [symmetric] by (simp add: mult_less_0_iff)
      have "exp (t * a) < y1 / y0" using lt y0 by (simp add: field_simps)
      then have "t * a < ln (y1 / y0)" by (metis ln_exp ln_less_cancel_iff exp_gt_zero less_trans)
      then show ?thesis using a by (simp add: field_simps)
    qed
    then show ?thesis using False by (simp add: hit_time_where_def y0_def y1_def)
  qed
qed

section \<open>Cells wider than \<open>eps\<close>\<close>

definition cells_wide :: "params \<Rightarrow> bool" where
  "cells_wide params \<longleftrightarrow>
     xmin params < xmax params \<and> 0 < nc params
     \<and> eps < (xmax params - xmin params) / real_of_int (nc params)"

lemma cell_fraction:
  assumes "cells_wide params"
  shows "(xmin params + real_of_int k * (xmax params - xmin params) / real_of_int (nc params) + d
            - xmin params) / (xmax params - xmin params) * real_of_int (nc params)
       = real_of_int k + d * real_of_int (nc params) / (xmax params - xmin params)"
  using assms by (simp add: cells_wide_def field_simps)

lemma eps_fraction:
  assumes "cells_wide params"
  shows "0 < eps * real_of_int (nc params) / (xmax params - xmin params)"
    and "eps * real_of_int (nc params) / (xmax params - xmin params) < 1"
proof -
  have n: "0 < real_of_int (nc params)" and d: "0 < xmax params - xmin params"
    and e: "eps < (xmax params - xmin params) / real_of_int (nc params)"
    using assms by (simp_all add: cells_wide_def)
  show "0 < eps * real_of_int (nc params) / (xmax params - xmin params)"
    using n d eps_pos by simp
  have "eps * real_of_int (nc params) < xmax params - xmin params"
    using e n by (simp add: pos_less_divide_eq)
  then show "eps * real_of_int (nc params) / (xmax params - xmin params) < 1"
    using d by simp
qed

lemma get_cell_right_boundary:
  assumes w: "cells_wide params" and c: "0 \<le> c" "c + 1 < nc params"
  shows "get_cell (right_boundary c params) params = c + 1"
proof -
  have "(right_boundary c params - xmin params) / (xmax params - xmin params)
          * real_of_int (nc params)
      = real_of_int (c + 1) + eps * real_of_int (nc params) / (xmax params - xmin params)"
    unfolding right_boundary_def by (rule cell_fraction [OF w])
  moreover have "\<lfloor>real_of_int (c + 1)
                  + eps * real_of_int (nc params) / (xmax params - xmin params)\<rfloor> = c + 1"
    using eps_fraction [OF w] by (intro floor_unique) simp_all
  ultimately show ?thesis
    using c by (simp add: get_cell_def clip_def)
qed

lemma get_cell_left_boundary:
  assumes w: "cells_wide params" and c: "0 < c" "c < nc params"
  shows "get_cell (left_boundary c params) params = c - 1"
proof -
  have "(left_boundary c params - xmin params) / (xmax params - xmin params)
          * real_of_int (nc params)
      = real_of_int c + (- eps) * real_of_int (nc params) / (xmax params - xmin params)"
    using cell_fraction [OF w, of c "- eps"] by (simp add: left_boundary_def)
  moreover have "\<lfloor>real_of_int c
                  + (- eps) * real_of_int (nc params) / (xmax params - xmin params)\<rfloor> = c - 1"
    using eps_fraction [OF w] by (intro floor_unique) simp_all
  ultimately show ?thesis
    using c by (simp add: get_cell_def clip_def)
qed

definition cell_width :: "params \<Rightarrow> real" where
  "cell_width params = (xmax params - xmin params) / real_of_int (nc params)"

lemma boundaries_by_width:
  "left_boundary c params = xmin params + real_of_int c * cell_width params - eps"
  "right_boundary c params = xmin params + real_of_int c * cell_width params
                               + cell_width params + eps"
proof -
  show "left_boundary c params = xmin params + real_of_int c * cell_width params - eps"
    by (simp add: left_boundary_def cell_width_def)
  define d where "d = xmax params - xmin params"
  have "real_of_int (c + 1) * d = real_of_int c * d + d"
    by (simp add: ring_distribs)
  then have "real_of_int (c + 1) * d / real_of_int (nc params)
           = real_of_int c * d / real_of_int (nc params) + d / real_of_int (nc params)"
    by (simp only: add_divide_distrib)
  then have "real_of_int (c + 1) * (xmax params - xmin params) / real_of_int (nc params)
      = real_of_int c * cell_width params + cell_width params"
    by (simp add: cell_width_def d_def)
  then show "right_boundary c params
           = xmin params + real_of_int c * cell_width params + cell_width params + eps"
    unfolding right_boundary_def by linarith
qed

lemma cell_width_pos: "cells_wide params \<Longrightarrow> 0 < cell_width params"
  by (simp add: cells_wide_def cell_width_def)

lemma right_boundary_next:
  assumes "cells_wide params"
  shows "left_boundary (c + 1) params \<le> right_boundary c params"
    and "right_boundary c params \<le> right_boundary (c + 1) params"
  using cell_width_pos [OF assms] eps_pos
  by (simp_all add: boundaries_by_width ring_distribs)

lemma left_boundary_next:
  assumes "cells_wide params"
  shows "left_boundary (c - 1) params \<le> left_boundary c params"
    and "left_boundary c params \<le> right_boundary (c - 1) params"
  using cell_width_pos [OF assms] eps_pos
  by (simp_all add: boundaries_by_width ring_distribs)

section \<open>Points that start in the domain\<close>

text \<open>
  A point is in its cell when its working cell is a cell of the partition and is the cell
  of its position, the position lies between the widened boundaries of the cell, and the
  remaining time is not negative.
\<close>

definition in_cell :: "params \<Rightarrow> point \<Rightarrow> bool" where
  "in_cell params p =
     (case p of (ri, xi, ti, ci) \<Rightarrow>
        0 \<le> ci \<and> ci < nc params \<and> get_cell xi params = ci
        \<and> left_boundary ci params \<le> xi \<and> xi \<le> right_boundary ci params \<and> 0 \<le> ti)"

text \<open>What the hit-time computation of an active point needs to be a finite number.\<close>

definition pt_hit_time_defined :: "params \<Rightarrow> point \<Rightarrow> bool" where
  "pt_hit_time_defined params p =
     (case p of (ri, xi, ti, ci) \<Rightarrow>
        (case coef params ri xi of (a, b) \<Rightarrow>
           velocity1 params ri xi \<noteq> 0
           \<and> hit_time_defined a b xi
                 (target_boundary (velocity1 params ri xi) (get_cell xi params) params)))"

lemma in_cell_hop:
  assumes inc: "in_cell params (ri, xi, ti, ci)" and bad: "\<not> pt_valid params (ri, xi, ti, ci)"
  shows "pt_hit_time_defined params (ri, xi, ti, ci)"
    and "hit_time1 params ri xi < ti"
    and "0 < velocity1 params ri xi \<Longrightarrow>
           right_boundary ci params < psi1 params ri xi ti \<and> ci + 1 < nc params"
    and "velocity1 params ri xi < 0 \<Longrightarrow>
           psi1 params ri xi ti < left_boundary ci params \<and> 0 < ci"
proof -
  obtain a b where ab: "coef params ri xi = (a, b)"
    by (cases "coef params ri xi")
  have v: "velocity1 params ri xi = a * xi + b" and psi: "psi1 params ri xi ti = psi_where a b xi ti"
    by (simp_all add: velocity1_def psi1_def ab)
  have t: "0 \<le> ti" and l: "left_boundary ci params \<le> xi" and u: "xi \<le> right_boundary ci params"
    and gc: "get_cell xi params = ci"
    using inc by (simp_all add: in_cell_def)
  have out: "\<not> (left_boundary ci params \<le> psi_where a b xi ti
               \<and> psi_where a b xi ti \<le> right_boundary ci params)"
    and edge2: "\<not> (a * xi + b \<ge> 0 \<and> ci = nc params - 1)"
    and edge3: "\<not> (a * xi + b \<le> 0 \<and> ci = 0)"
    using bad by (simp_all add: pt_valid_def valid_test_def v psi Let_def)
  note leaves = hop_leaves [OF t l u out]
  have right: "right_boundary ci params < psi_where a b xi ti" if "0 < a * xi + b"
    using leaves(2) that by simp
  have left: "psi_where a b xi ti < left_boundary ci params" if "a * xi + b < 0"
    using leaves(3) that by simp
  show "0 < velocity1 params ri xi \<Longrightarrow>
          right_boundary ci params < psi1 params ri xi ti \<and> ci + 1 < nc params"
    using right edge2 inc by (simp add: v psi in_cell_def)
  show "velocity1 params ri xi < 0 \<Longrightarrow>
          psi1 params ri xi ti < left_boundary ci params \<and> 0 < ci"
    using left edge3 inc by (simp add: v psi in_cell_def)
  show "pt_hit_time_defined params (ri, xi, ti, ci)"
  proof (cases "0 < a * xi + b")
    case True
    then show ?thesis
      using hop_hit_time_right(1) [OF t u True right [OF True]] leaves(1)
      by (simp add: pt_hit_time_defined_def ab v gc target_boundary_def)
  next
    case False
    then have neg: "a * xi + b < 0" using leaves(1) by simp
    then show ?thesis
      using hop_hit_time_left(1) [OF t l neg left [OF neg]] leaves(1)
      by (simp add: pt_hit_time_defined_def ab v gc target_boundary_def)
  qed
  show "hit_time1 params ri xi < ti"
  proof (cases "0 < a * xi + b")
    case True
    then show ?thesis
      using hop_hit_time_right(2) [OF t u True right [OF True]]
      by (simp add: hit_time1_def ab v gc target_boundary_def)
  next
    case False
    then have neg: "a * xi + b < 0" using leaves(1) by simp
    then show ?thesis
      using hop_hit_time_left(2) [OF t l neg left [OF neg]]
      by (simp add: hit_time1_def ab v gc target_boundary_def)
  qed
qed

lemma in_cell_next:
  assumes w: "cells_wide params" and inc: "in_cell params p" and bad: "\<not> pt_valid params p"
  shows "in_cell params (pt_next params p)"
proof -
  obtain ri xi ti ci where p: "p = (ri, xi, ti, ci)"
    by (cases p) auto
  note hop = in_cell_hop [OF inc [unfolded p] bad [unfolded p]]
  have c: "0 \<le> ci" "ci < nc params" and lu: "left_boundary ci params \<le> right_boundary ci params"
    using inc by (simp_all add: in_cell_def p)
  have v0: "velocity1 params ri xi \<noteq> 0"
    using hop(1) by (simp add: pt_hit_time_defined_def split_def)
  show ?thesis
  proof (cases "0 < velocity1 params ri xi")
    case True
    have "clip (psi1 params ri xi ti) (left_boundary ci params) (right_boundary ci params)
        = right_boundary ci params"
      using hop(3) [OF True] lu by (simp add: clip_def)
    then have "pt_next params p
             = (ri, right_boundary ci params, ti - hit_time1 params ri xi, ci + 1)"
      using True by (simp add: pt_next_def p)
    then show ?thesis
      using hop(2) hop(3) [OF True] c get_cell_right_boundary [OF w c(1)]
        right_boundary_next [OF w, of ci]
      by (simp add: in_cell_def)
  next
    case False
    then have neg: "velocity1 params ri xi < 0" using v0 by simp
    have "clip (psi1 params ri xi ti) (left_boundary ci params) (right_boundary ci params)
        = left_boundary ci params"
      using hop(4) [OF neg] lu by (simp add: clip_def)
    then have "pt_next params p
             = (ri, left_boundary ci params, ti - hit_time1 params ri xi, ci - 1)"
      using neg by (simp add: pt_next_def p)
    then show ?thesis
      using hop(2) hop(4) [OF neg] c get_cell_left_boundary [OF w _ c(2)]
        left_boundary_next [OF w, of ci]
      by (simp add: in_cell_def)
  qed
qed

section \<open>The states of the cell-hopping loop\<close>

lemma length_mask_assign [simp]: "length (mask_assign xs msk vs) = length xs"
  by (induction xs msk vs rule: mask_assign.induct) simp_all

lemma active_after_assign:
  "length vs = length (filter Not ds) \<Longrightarrow>
   length (filter Not (mask_assign ds (map Not ds) vs)) = length (filter Not vs)"
proof (induction ds arbitrary: vs)
  case Nil
  then show ?case by simp
next
  case (Cons d ds)
  show ?case
  proof (cases d)
    case True
    then show ?thesis using Cons by simp
  next
    case False
    then obtain v vs' where vs: "vs = v # vs'"
      using Cons.prems by (cases vs) auto
    then show ?thesis using Cons False by simp
  qed
qed

lemma zip_columns:
  "zip (map fst ps)
     (zip (map (\<lambda>(ri, xi, ti, ci). xi) ps)
        (zip (map (\<lambda>(ri, xi, ti, ci). ti) ps) (map (\<lambda>(ri, xi, ti, ci). ci) ps))) = ps"
  by (induction ps) auto

lemma points_next_state:
  "points (next_state store s)
     = map (pt_next (ls_params s)) (filter (\<lambda>p. \<not> pt_valid (ls_params s) p) (points s))"
proof -
  define ps where
    "ps = map (pt_next (ls_params s)) (filter (\<lambda>p. \<not> pt_valid (ls_params s) p) (points s))"
  have "r (ls_params (next_state store s)) = map fst ps"
    and "ls_x (next_state store s) = map (\<lambda>(ri, xi, ti, ci). xi) ps"
    and "ls_t (next_state store s) = map (\<lambda>(ri, xi, ti, ci). ti) ps"
    and "ls_c (next_state store s) = map (\<lambda>(ri, xi, ti, ci). ci) ps"
    by (simp_all add: next_state_def Let_def ps_def)
  then have "points (next_state store s) = ps"
    by (simp only: points_def zip_columns)
  then show ?thesis
    by (simp only: ps_def)
qed

lemma length_points: "aligned s \<Longrightarrow> length (points s) = length (ls_x s)"
  by (simp add: aligned_def points_def)

lemma aligned_next_state:
  assumes "aligned s"
  shows "aligned (next_state store s)"
proof -
  have "length (map (pt_valid (ls_params s)) (points s)) = length (filter Not (ls_done s))"
    using assms by (simp add: length_points) (simp add: aligned_def)
  then have "length (filter Not (mask_assign (ls_done s) (map Not (ls_done s))
                                  (map (pt_valid (ls_params s)) (points s))))
           = length (filter Not (map (pt_valid (ls_params s)) (points s)))"
    by (rule active_after_assign)
  also have "\<dots> = length (filter (\<lambda>p. \<not> pt_valid (ls_params s) p) (points s))"
    by (simp add: filter_map comp_def)
  finally show ?thesis
    using assms by (simp add: aligned_def next_state_def Let_def)
qed

lemma params_next_state:
  "\<exists>rs. ls_params (next_state store s) = (ls_params s)\<lparr>r := rs\<rparr>"
  by (auto simp: next_state_def Let_def)

lemma field_ok_next_state:
  assumes "field_ok (ls_params s)" and "aligned s"
  shows "field_ok (ls_params (next_state store s))"
proof -
  have "set (map fst (map (pt_next (ls_params s))
                       (filter (\<lambda>p. \<not> pt_valid (ls_params s) p) (points s))))
          \<subseteq> set (r (ls_params s))"
    by (subst points_columns(1) [OF assms(2)]) (force simp: pt_next_def split_def)
  then show ?thesis
    using assms(1) by (simp add: next_state_def Let_def field_ok_sublist)
qed

text \<open>
  The states at the head of the loop: the state that an entry point sets up, and every
  state that the body hands on without the iteration cap being hit.
\<close>

inductive reach ::
  "(real \<Rightarrow> real \<Rightarrow> int \<Rightarrow> 'a) \<Rightarrow> real list list \<Rightarrow> 'a loop_state \<Rightarrow> 'a loop_state \<Rightarrow> bool"
  for store theta s0 where
  start: "reach store theta s0 s0"
| pass: "reach store theta s0 s \<Longrightarrow> loop_body store theta s = Inr (Continue s') \<Longrightarrow>
         \<not> ls_cont s' > nc (ls_params s') \<Longrightarrow> reach store theta s0 s'"

lemma pt_independent_of_r [simp]:
  "pt_valid (params\<lparr>r := rs\<rparr>) = pt_valid params"
  "pt_next (params\<lparr>r := rs\<rparr>) = pt_next params"
  "pt_store store (params\<lparr>r := rs\<rparr>) = pt_store store params"
  by (auto simp: pt_valid_def pt_next_def pt_store_def fun_eq_iff valid_test_def)

text \<open>
  A property of points that a hop preserves holds for every active point of every state
  of the loop.
\<close>

lemma reach_points:
  assumes ok: "field_ok (ls_params s0)" and al: "aligned s0"
    and step: "\<And>p. P p \<Longrightarrow> \<not> pt_valid (ls_params s0) p \<Longrightarrow> P (pt_next (ls_params s0) p)"
    and init: "\<forall>p \<in> set (points s0). P p"
    and reach: "reach store theta s0 s"
  shows "field_ok (ls_params s) \<and> aligned s \<and> (\<exists>rs. ls_params s = (ls_params s0)\<lparr>r := rs\<rparr>)
       \<and> (\<forall>p \<in> set (points s). P p)"
  using reach
proof (induction rule: reach.induct)
  case start
  have "ls_params s0 = (ls_params s0)\<lparr>r := r (ls_params s0)\<rparr>"
    by simp
  then show ?case
    using ok al init by blast
next
  case (pass s s')
  then obtain rs where rs: "ls_params s = (ls_params s0)\<lparr>r := rs\<rparr>"
    by blast
  have s': "s' = next_state store s"
    using pass.hyps(2) pass.IH by (simp add: loop_body_points split: if_splits)
  obtain rs' where "ls_params s' = (ls_params s)\<lparr>r := rs'\<rparr>"
    using params_next_state [of store s] unfolding s' by blast
  then have "ls_params s' = (ls_params s0)\<lparr>r := rs'\<rparr>"
    by (simp add: rs)
  then have "\<exists>rs'. ls_params s' = (ls_params s0)\<lparr>r := rs'\<rparr>"
    by blast
  moreover have "\<forall>p \<in> set (points s'). P p"
    using pass.IH step by (auto simp: s' points_next_state rs)
  ultimately show ?case
    using pass.IH by (simp add: s' aligned_next_state field_ok_next_state)
qed

section \<open>The hit time of the active points\<close>

lemma hit_time_independent_of_r [simp]:
  "target_boundary v c (params\<lparr>r := rs\<rparr>) = target_boundary v c params"
  "pt_hit_time_defined (params\<lparr>r := rs\<rparr>) = pt_hit_time_defined params"
  by (simp_all add: target_boundary_def pt_hit_time_defined_def fun_eq_iff)

lemma aligned_initial:
  "length (r params) = length x \<Longrightarrow> aligned (initial_state filler x params)"
  by (simp add: aligned_def initial_state_def)

lemma points_initial:
  "length (r params) = length x \<Longrightarrow>
   points (initial_state filler x params)
     = map2 (\<lambda>ri xi. (ri, xi, 1, get_cell xi params)) (r params) x"
  by (simp add: points_def initial_state_def list_eq_iff_nth_eq)

lemma set_batch_effect: "set (batch_effect x theta) \<subseteq> set x"
  by (auto simp: batch_effect_def)

lemma cells_wide_resolved [simp]: "cells_wide (resolved x theta params) = cells_wide params"
  by (simp add: cells_wide_def)

lemma in_cell_initial:
  assumes "cells_wide params" and "length (r params) = length x"
    and "\<forall>xi \<in> set x. xmin params \<le> xi \<and> xi \<le> xmax params"
  shows "\<forall>p \<in> set (points (initial_state filler x params)). in_cell params p"
proof
  fix p
  assume "p \<in> set (points (initial_state filler x params))"
  then obtain ri xi where p: "p = (ri, xi, 1, get_cell xi params)" and xi: "xi \<in> set x"
    unfolding points_initial [OF assms(2)] by (auto dest: set_zip_rightD)
  have "xmin params < xmax params" and n: "0 < nc params"
    using assms(1) by (simp_all add: cells_wide_def)
  then have "left_boundary (get_cell xi params) params \<le> xi
           \<and> xi \<le> right_boundary (get_cell xi params) params"
    using assms(3) xi by (intro get_cell_agrees) auto
  then show "in_cell params p"
    using get_cell_range [OF n, of xi] by (simp add: in_cell_def p)
qed

lemma reach_in_cell:
  assumes sh: "shapes_ok theta params" and w: "cells_wide params"
    and dom: "\<forall>xi \<in> set x. xmin params \<le> xi \<and> xi \<le> xmax params"
    and reach: "reach store theta
                  (initial_state filler (batch_effect x theta) (resolved x theta params)) s"
  shows "field_ok (ls_params s) \<and> aligned s
       \<and> (\<exists>rs. ls_params s = (resolved x theta params)\<lparr>r := rs\<rparr>)
       \<and> (\<forall>p \<in> set (points s). in_cell (resolved x theta params) p)"
proof -
  let ?p = "resolved x theta params"
  let ?s0 = "initial_state filler (batch_effect x theta) ?p"
  have p0: "ls_params ?s0 = ?p"
    by (simp add: initial_state_def)
  have "field_ok (ls_params ?s0)"
    using sh by (simp add: p0 resolved_field_ok)
  moreover have "aligned ?s0"
    by (simp add: aligned_initial resolved_length)
  moreover have "in_cell ?p (pt_next (ls_params ?s0) p)"
    if "in_cell ?p p" and "\<not> pt_valid (ls_params ?s0) p" for p
    using that w by (simp add: p0 in_cell_next)
  moreover have "\<forall>p \<in> set (points ?s0). in_cell ?p p"
  proof (rule in_cell_initial)
    show "cells_wide ?p" using w by simp
    show "length (r ?p) = length (batch_effect x theta)" by (rule resolved_length)
    show "\<forall>xi \<in> set (batch_effect x theta). xmin ?p \<le> xi \<and> xi \<le> xmax ?p"
      using dom set_batch_effect [of x theta] by auto
  qed
  ultimately show ?thesis
    using reach_points [of ?s0 "in_cell ?p" store theta s] reach by (simp add: p0)
qed

text \<open>
  Over the real numbers, with every cell wider than \<open>eps\<close> and every starting position
  in the domain \<open>[xmin, xmax]\<close>, a point that fails the validity test has a nonzero
  velocity and a hit time that is a finite number. This is a fact of the exact formulas:
  in doubles the exponential of \<^verbatim>\<open>get_psi\<close> overflows and the comparisons are decided
  by rounding.
\<close>

lemma hit_time_defined_ok:
  assumes "shapes_ok theta params" and "cells_wide params"
    and "\<forall>xi \<in> set x. xmin params \<le> xi \<and> xi \<le> xmax params"
    and "reach store theta
           (initial_state filler (batch_effect x theta) (resolved x theta params)) s"
  shows "\<forall>p \<in> set (points s).
           \<not> pt_valid (ls_params s) p \<longrightarrow> pt_hit_time_defined (ls_params s) p"
proof -
  note inv = reach_in_cell [OF assms]
  then obtain rs where rs: "ls_params s = (resolved x theta params)\<lparr>r := rs\<rparr>"
    by blast
  have "pt_hit_time_defined (ls_params s) p = pt_hit_time_defined (resolved x theta params) p"
    for p
    by (simp add: rs)
  moreover have "pt_hit_time_defined (resolved x theta params) p"
    if "p \<in> set (points s)" and "\<not> pt_valid (ls_params s) p" for p
  proof -
    obtain ri xi ti ci where p: "p = (ri, xi, ti, ci)"
      by (cases p) auto
    have "in_cell (resolved x theta params) (ri, xi, ti, ci)"
      using inv that(1) by (simp add: p)
    moreover have "\<not> pt_valid (resolved x theta params) (ri, xi, ti, ci)"
      using that(2) by (simp add: rs p)
    ultimately show ?thesis
      unfolding p by (rule in_cell_hop(1))
  qed
  ultimately show ?thesis
    by simp
qed


text \<open>
  A contracting field, \<open>v(x) = -x\<close> in both cells of \<open>[0, 1]\<close>, and a point that starts
  outside the domain at \<open>-5\<close>.
\<close>

definition outside_params :: params where
  "outside_params =
     \<lparr>xmin = 0, xmax = 1, nc = 2, B = [[- 1], [0], [- 1], [0]], nSteps1 = 1, nSteps2 = 1,
      precomputed = False, A = [], r = []\<rparr>"

lemma exp_minus_one_ge: "1 / 3 \<le> exp (- 1 :: real)"
proof -
  have "exp (1 :: real) \<le> 3"
    by (rule exp_le)
  then have "1 / 3 \<le> 1 / exp (1 :: real)"
    by (intro divide_left_mono) simp_all
  then show ?thesis
    by (simp add: exp_minus inverse_eq_divide)
qed

text \<open>
  Claim C9. The invariant is that every point that fails the validity test has a nonzero
  velocity of one sign at the point and at its target boundary, so that the hit time
  computed for it is a finite number. The loop breaks it for a point that starts outside
  the domain and moves towards it: \<open>get_cell\<close> clamps the point at \<open>-5\<close> into cell
  \<open>0\<close>, the point fails the validity test in the first pass, its velocity is \<open>5\<close>, the
  velocity at its target boundary \<open>1/2 + eps\<close> is negative, and the argument
  \<open>(1/2 + eps) / (-5)\<close> of the logarithm is negative. The comparisons of this pass
  have a wide margin, so that rounding does not change them.
\<close>

theorem hit_time_undefined_outside:
  "points (initial_state (0 :: real) (batch_effect [- 5] [[1]])
             (resolved [- 5] [[1]] outside_params)) = [(0, - 5, 1, 0)]
   \<and> \<not> pt_valid (resolved [- 5] [[1]] outside_params) (0, - 5, 1, 0)
   \<and> \<not> pt_hit_time_defined (resolved [- 5] [[1]] outside_params) (0, - 5, 1, 0)
   \<and> coef (resolved [- 5] [[1]] outside_params) 0 (- 5) = (- 1, 0)
   \<and> (right_boundary 0 outside_params + 0 / (- 1)) / (- 5 + 0 / (- 1)) < 0"
proof -
  let ?p = "resolved [- 5] [[1]] outside_params"
  have res: "?p = outside_params\<lparr>precomputed := True, A := [[(- 1, 0), (- 1, 0)]], r := [0]\<rparr>"
    by (simp add: resolved_def resolve_def outside_params_def dot_def)
  have c: "get_cell (- 5) ?p = 0"
    by (simp add: get_cell_def clip_def outside_params_def)
  have co: "coef ?p 0 (- 5) = (- 1, 0)"
    by (simp add: coef_def c) (simp add: resolve_def outside_params_def dot_def)
  have v: "velocity1 ?p 0 (- 5) = 5"
    by (simp add: velocity1_def co)
  have psi: "psi1 ?p 0 (- 5) 1 = - 5 * exp (- 1)"
    by (simp add: psi1_def co psi_where_def)
  have lb: "left_boundary 0 ?p = - eps" and rb: "right_boundary 0 ?p = 1 / 2 + eps"
    by (simp_all add: left_boundary_def right_boundary_def outside_params_def)
  have "- 5 * exp (- 1 :: real) < - eps"
    using exp_minus_one_ge by (simp add: eps_def)
  then have bad: "\<not> pt_valid ?p (0, - 5, 1, 0)"
    by (simp add: pt_valid_def valid_test_def v psi lb) (simp add: outside_params_def)
  have neg: "(1 / 2 + eps) / (- 5) < 0"
    using eps_pos by simp
  then have undef: "\<not> pt_hit_time_defined ?p (0, - 5, 1, 0)"
    using eps_pos
    by (simp add: pt_hit_time_defined_def co v c target_boundary_def rb hit_time_defined_def)
  have pts: "points (initial_state (0 :: real) (batch_effect [- 5] [[1]]) ?p) = [(0, - 5, 1, 0)]"
    using c by (simp add: points_def initial_state_def batch_effect_def resolved_def)
  have "right_boundary 0 outside_params = 1 / 2 + eps"
    by (simp add: right_boundary_def outside_params_def)
  then show ?thesis
    using pts bad undef co neg by simp
qed

section \<open>What the loop stores\<close>

lemma zip_mask_assign:
  assumes "length ds = length es" and "length vs = length ws"
    and "length vs = length (filter Not ds)"
  shows "set (zip (mask_assign ds (map Not ds) vs) (mask_assign es (map Not ds) ws))
           \<subseteq> {(d, e). (d, e) \<in> set (zip ds es) \<and> d} \<union> set (zip vs ws)"
  using assms
proof (induction ds es arbitrary: vs ws rule: list_induct2)
  case Nil
  then show ?case by simp
next
  case (Cons d ds e es)
  show ?case
  proof (cases d)
    case True
    then show ?thesis
      using Cons.IH [of vs ws] Cons.prems by auto
  next
    case False
    then obtain v vs' where vs: "vs = v # vs'"
      using Cons.prems by (cases vs) auto
    then obtain w ws' where ws: "ws = w # ws'"
      using Cons.prems by (cases ws) auto
    have "length vs' = length ws'" and "length vs' = length (filter Not ds)"
      using Cons.prems vs ws False by simp_all
    from Cons.IH [OF this] show ?thesis
      using False vs ws by auto
  qed
qed

lemma set_mask_assign:
  assumes "length ds = length es" and "length ws = length (filter Not ds)"
  shows "set (mask_assign es (map Not ds) ws)
           \<subseteq> {e. (True, e) \<in> set (zip ds es)} \<union> set ws"
  using assms
proof (induction ds es arbitrary: ws rule: list_induct2)
  case Nil
  then show ?case by simp
next
  case (Cons d ds e es)
  show ?case
  proof (cases d)
    case True
    then show ?thesis using Cons.IH [of ws] Cons.prems by auto
  next
    case False
    then obtain w ws' where ws: "ws = w # ws'"
      using Cons.prems by (cases ws) auto
    then show ?thesis using False Cons.IH [of ws'] Cons.prems by auto
  qed
qed

text \<open>
  What a finished point has stored satisfies every property that the stored value of an
  active point has.
\<close>

lemma reach_stored:
  assumes ok: "field_ok (ls_params s0)" and al: "aligned s0"
    and step: "\<And>p. P p \<Longrightarrow> \<not> pt_valid (ls_params s0) p \<Longrightarrow> P (pt_next (ls_params s0) p)"
    and init: "\<forall>p \<in> set (points s0). P p"
    and store: "\<And>p. P p \<Longrightarrow> Q (pt_store store (ls_params s0) p)"
    and fresh: "\<forall>d \<in> set (ls_done s0). \<not> d"
    and reach: "reach store theta s0 s"
  shows "\<forall>(d, e) \<in> set (zip (ls_done s) (ls_out s)). d \<longrightarrow> Q e"
  using reach
proof (induction rule: reach.induct)
  case start
  then show ?case
    using fresh by (auto dest: set_zip_leftD)
next
  case (pass s s')
  note inv = reach_points [where P = P, OF ok al step init pass.hyps(1)]
  then obtain rs where rs: "ls_params s = (ls_params s0)\<lparr>r := rs\<rparr>"
    by blast
  have s': "s' = next_state store s"
    using pass.hyps(2) inv by (simp add: loop_body_points split: if_splits)
  have len: "length (ls_done s) = length (ls_out s)"
    using inv by (simp add: aligned_def)
  let ?vs = "map (pt_valid (ls_params s)) (points s)"
  let ?ws = "map (pt_store store (ls_params s)) (points s)"
  have cnt: "length (points s) = length (filter Not (ls_done s))"
    using inv by (simp add: length_points) (simp add: aligned_def)
  have d': "ls_done s' = mask_assign (ls_done s) (map Not (ls_done s)) ?vs"
    and o': "ls_out s' = mask_assign (ls_out s) (map Not (ls_done s)) ?ws"
    by (simp_all add: s' next_state_def Let_def)
  have sub: "set (zip (ls_done s') (ls_out s'))
          \<subseteq> {(d, e). (d, e) \<in> set (zip (ls_done s) (ls_out s)) \<and> d} \<union> set (zip ?vs ?ws)"
    unfolding d' o' by (rule zip_mask_assign) (simp_all add: len cnt)
  have new: "Q e" if "(d, e) \<in> set (zip ?vs ?ws)" for d e
  proof -
    from that have "e \<in> set ?ws" by (rule set_zip_rightD)
    then obtain p where "p \<in> set (points s)" and e: "e = pt_store store (ls_params s) p"
      by auto
    then have "P p" using inv by blast
    then show ?thesis using store [of p] by (simp add: e rs)
  qed
  show ?case
  proof clarify
    fix d e
    assume de: "(d, e) \<in> set (zip (ls_done s') (ls_out s'))" and d
    from de sub consider "(d, e) \<in> set (zip (ls_done s) (ls_out s))" | "(d, e) \<in> set (zip ?vs ?ws)"
      by blast
    then show "Q e"
    proof cases
      case 1
      then show ?thesis using pass.IH \<open>d\<close> by blast
    next
      case 2
      then show ?thesis by (rule new)
    qed
  qed
qed

section \<open>Shapes at the entry points\<close>










section \<open>A constant field and a point outside the domain\<close>





end
